theory Spec2Isabelle
  imports Main
begin

section \<open>Data model (bou/contrib.py)\<close>

text \<open>
  The enums \<open>ProcessAction\<close> and \<open>ProcessState\<close> of \<open>contrib.py\<close>. They are string enums;
  every value the program writes into the columns \<open>action\<close> and \<open>state\<close> is one of these
  members, and a member compares equal to the text read back from the store.
\<close>

datatype ProcessAction = BUILD | RELEASE

datatype ProcessState = SCHEDULED | RUNNING | COMPLETE

text \<open>
  A \<open>datetime\<close> is an instant; only equality of instants matters here, so it is a number
  (say, microseconds since the epoch).
\<close>

type_synonym datetime = nat

text \<open>
  One row of table \<open>snapshot\<close> (and of \<open>snapshot_history\<close>, which has the same columns), in
  column order; it is also the named tuple \<open>Snapshot\<close> built from a returned row. The
  columns \<open>updated_at\<close>, \<open>updated_by\<close> and \<open>etd\<close> are nullable and are not mentioned by the
  INSERT of \<open>SnapshotManager.create\<close>, so they hold NULL (\<open>None\<close>) in a fresh row.
\<close>

record Snapshot =
  ref :: string
  ref_sha :: string
  action :: ProcessAction
  state :: ProcessState
  created_at :: datetime
  created_by :: string
  updated_at :: "datetime option"
  updated_by :: "string option"
  pid :: int
  efd :: datetime
  etd :: "datetime option"

text \<open>One row of table \<open>cache\<close> (columns \<open>key\<close>, \<open>value\<close>).\<close>

record cache_row =
  key :: string
  val :: string

text \<open>
  The named tuple \<open>CacheObject\<close>. It is declared by
  \<open>t.NamedTuple("Object", fields=[("key", str), ("value", str)])\<close>: the field list is
  passed by keyword, and the second parameter of \<open>typing.NamedTuple\<close> is positional
  only, so the keyword is taken as the declaration of one field named \<open>fields\<close>. The
  class has that single field and no field \<open>key\<close> or \<open>value\<close>; an instance is the value
  of its one field. (\<open>Snapshot\<close> passes its field list positionally and has the eleven
  fields of the record above.)
\<close>

datatype CacheObject = CacheObject (fields_value: string)

text \<open>
  The store opened by \<open>Db.init_with_defaults\<close>: the three tables it creates, each a list
  of rows in insertion order. A database file that did not exist before starts as
  \<open>empty_db\<close>.
\<close>

record Db =
  snapshot :: "Snapshot list"
  snapshot_history :: "Snapshot list"
  cache :: "cache_row list"

definition empty_db :: Db where
  "empty_db = \<lparr>snapshot = [], snapshot_history = [], cache = []\<rparr>"

section \<open>The SQL statements of the store\<close>

text \<open>\<open>cursor.fetchone()\<close>: the first row of the result, or \<open>None\<close> when there is none.\<close>

fun fetchone :: "'a list \<Rightarrow> 'a option" where
  "fetchone [] = None"
| "fetchone (x # xs) = Some x"

text \<open>\<open>SELECT * FROM snapshot WHERE ref_sha = :ref_sha\<close>.\<close>

definition select_by_ref_sha :: "Snapshot list \<Rightarrow> string \<Rightarrow> Snapshot list" where
  "select_by_ref_sha rows sha = filter (\<lambda>r. ref_sha r = sha) rows"

text \<open>
  \<open>UPDATE snapshot SET ... WHERE ref_sha = :ref_sha AND state = :state RETURNING *\<close>:
  every row that satisfies the WHERE clause is replaced by its update, in place; the
  statement returns the updated rows. The statement runs in one transaction
  (\<open>with self.conn\<close>), so it is one step of the store.
\<close>

definition cas_where :: "string \<Rightarrow> ProcessState \<Rightarrow> Snapshot \<Rightarrow> bool" where
  "cas_where sha st r = (ref_sha r = sha \<and> state r = st)"

definition sql_update ::
  "(Snapshot \<Rightarrow> bool) \<Rightarrow> (Snapshot \<Rightarrow> Snapshot) \<Rightarrow> Snapshot list \<Rightarrow> Snapshot list \<times> Snapshot list" where
  "sql_update wh upd rows =
     (map upd (filter wh rows), map (\<lambda>r. if wh r then upd r else r) rows)"

section \<open>SnapshotManager\<close>

text \<open>\<open>SnapshotManager.get\<close>.\<close>

definition get :: "Db \<Rightarrow> string \<Rightarrow> Snapshot option" where
  "get db sha = fetchone (select_by_ref_sha (snapshot db) sha)"

text \<open>
  \<open>SnapshotManager.create\<close>: \<open>INSERT INTO snapshot (...) SELECT ... WHERE NOT EXISTS
  (SELECT * FROM snapshot WHERE ref_sha = :ref_sha) RETURNING *\<close>. The result is the pair of
  the value returned to the caller and the store afterwards.
\<close>

definition create ::
  "Db \<Rightarrow> string \<Rightarrow> string \<Rightarrow> ProcessAction \<Rightarrow> ProcessState \<Rightarrow> datetime \<Rightarrow> string \<Rightarrow> int
     \<Rightarrow> Snapshot option \<times> Db" where
  "create db ref' ref_sha' action' state' current_datetime user pid' =
     (if select_by_ref_sha (snapshot db) ref_sha' = [] then
        (let row = \<lparr>ref = ref', ref_sha = ref_sha', action = action', state = state',
                    created_at = current_datetime, created_by = user,
                    updated_at = None, updated_by = None,
                    pid = pid', efd = current_datetime, etd = None\<rparr>
         in (fetchone [row], db\<lparr>snapshot := snapshot db @ [row]\<rparr>))
      else (fetchone [], db))"

text \<open>\<open>SnapshotManager.adopt_into_running_state\<close>.\<close>

definition adopt_into_running_state ::
  "Db \<Rightarrow> Snapshot \<Rightarrow> ProcessAction \<Rightarrow> datetime \<Rightarrow> string \<Rightarrow> int \<Rightarrow> Snapshot option \<times> Db" where
  "adopt_into_running_state db snapshot' action' current_datetime user pid' =
     (let (returned, rows') =
            sql_update (cas_where (ref_sha snapshot') (state snapshot'))
              (\<lambda>r. r\<lparr>action := action', state := RUNNING,
                      updated_at := Some current_datetime, updated_by := Some user,
                      pid := pid'\<rparr>)
              (snapshot db)
      in (fetchone returned, db\<lparr>snapshot := rows'\<rparr>))"

text \<open>\<open>SnapshotManager.complete\<close>.\<close>

definition complete :: "Db \<Rightarrow> Snapshot \<Rightarrow> datetime \<Rightarrow> string \<Rightarrow> Snapshot option \<times> Db" where
  "complete db snapshot' current_datetime user =
     (let (returned, rows') =
            sql_update (cas_where (ref_sha snapshot') (state snapshot'))
              (\<lambda>r. r\<lparr>state := COMPLETE,
                      updated_at := Some current_datetime, updated_by := Some user,
                      efd := current_datetime\<rparr>)
              (snapshot db)
      in (fetchone returned, db\<lparr>snapshot := rows'\<rparr>))"

text \<open>\<open>SnapshotManager.schedule_for_release\<close>.\<close>

definition schedule_for_release ::
  "Db \<Rightarrow> Snapshot \<Rightarrow> datetime \<Rightarrow> string \<Rightarrow> Snapshot option \<times> Db" where
  "schedule_for_release db snapshot' current_datetime user =
     (let (returned, rows') =
            sql_update (cas_where (ref_sha snapshot') (state snapshot'))
              (\<lambda>r. r\<lparr>action := RELEASE, state := SCHEDULED,
                      updated_at := Some current_datetime, updated_by := Some user,
                      efd := current_datetime\<rparr>)
              (snapshot db)
      in (fetchone returned, db\<lparr>snapshot := rows'\<rparr>))"

text \<open>
  A run of claim attempts, one after the other on the same store (the store serialises
  the statements of competing processes): each attempt is the argument tuple of one call
  of \<open>create\<close>; the results are collected in call order.
\<close>

type_synonym attempt = "string \<times> string \<times> ProcessAction \<times> ProcessState \<times> datetime \<times> string \<times> int"

fun create_attempts :: "Db \<Rightarrow> attempt list \<Rightarrow> Snapshot option list \<times> Db" where
  "create_attempts db [] = ([], db)"
| "create_attempts db ((rf, sha, a, st, now, user, p) # rest) =
     (let (res, db') = create db rf sha a st now user p;
          (ress, db'') = create_attempts db' rest
      in (res # ress, db''))"

definition successes :: "Snapshot option list \<Rightarrow> nat" where
  "successes ress = length (filter (\<lambda>r. r \<noteq> None) ress)"


section \<open>Cache\<close>

text \<open>
  Errors are values. \<open>IntegrityError\<close> is \<open>sqlite3.IntegrityError\<close>, \<open>OSError n\<close> an
  \<open>OSError\<close> with \<open>errno = n\<close>, \<open>ConfigError\<close> and \<open>BuildError\<close> are the exceptions of
  \<open>bou.errors\<close>, \<open>TypeError\<close> is Python's, and \<open>HookError\<close> stands for whatever else a
  hook implementation raises.
\<close>

datatype exn =
    IntegrityError
  | OSError int
  | ConfigError string
  | BuildError string
  | TypeError
  | KeyError
  | HookError string

text \<open>\<open>SELECT * FROM cache WHERE key = :key\<close>.\<close>

definition select_by_key :: "cache_row list \<Rightarrow> string \<Rightarrow> cache_row list" where
  "select_by_key rows k = filter (\<lambda>row. key row = k) rows"

text \<open>
  The constructor of the named tuple \<open>CacheObject\<close> called with keyword arguments: it
  accepts exactly the keyword \<open>fields\<close>; a missing or an unexpected keyword is a
  \<open>TypeError\<close>.
\<close>

definition CacheObject_new :: "(string \<times> string) list \<Rightarrow> exn + CacheObject" where
  "CacheObject_new kwargs =
     (case kwargs of
        [(name, v)] \<Rightarrow> if name = ''fields'' then Inr (CacheObject v) else Inl TypeError
      | other \<Rightarrow> Inl TypeError)"

text \<open>
  \<open>Db.row_factory_wrapper(CacheObject)\<close> on a row of table \<open>cache\<close>: the names are the
  column names of the cursor, \<open>key\<close> and \<open>value\<close>, and
  \<open>model_class(**dict(zip(names, record)))\<close> is \<open>CacheObject(key=..., value=...)\<close>.
\<close>

definition CacheObject_row_factory :: "cache_row \<Rightarrow> exn + CacheObject" where
  "CacheObject_row_factory row = CacheObject_new (zip [''key'', ''value''] [key row, val row])"

text \<open>
  \<open>cursor.fetchone()\<close> on a cursor with a row factory: \<open>None\<close> when the result is empty,
  otherwise what the factory makes of the first row, or the exception it raises.
\<close>

definition fetchone_with :: "('r \<Rightarrow> exn + 'a) \<Rightarrow> 'r list \<Rightarrow> exn + 'a option" where
  "fetchone_with factory rows =
     (case rows of
        [] \<Rightarrow> Inr None
      | row # rest \<Rightarrow> (case factory row of Inl ex \<Rightarrow> Inl ex | Inr obj \<Rightarrow> Inr (Some obj)))"

text \<open>\<open>Cache.get\<close>.\<close>

definition Cache_get :: "Db \<Rightarrow> string \<Rightarrow> exn + CacheObject option" where
  "Cache_get db k = fetchone_with CacheObject_row_factory (select_by_key (cache db) k)"

text \<open>
  \<open>Cache.set\<close>: \<open>INSERT INTO cache VALUES (:key, :value) RETURNING *\<close>, a plain INSERT
  with no conflict clause into a table declared with \<open>CONSTRAINT ucon_cache UNIQUE(key)\<close>.
  When a row with the key exists, \<open>execute\<close> fails with \<open>sqlite3.IntegrityError\<close>.
  Otherwise the row is inserted and \<open>fetchone\<close> builds the result from the returned row;
  an exception raised there leaves the \<open>with self.conn\<close> block, which rolls the
  transaction back, so the store is as it was before the call. Column \<open>value\<close> is
  declared with type \<open>JSON\<close>, which gives it numeric affinity: a text that reads as a
  number would be stored as that number. Values are taken to be texts that the column
  stores as they are.
\<close>

definition Cache_set :: "Db \<Rightarrow> string \<Rightarrow> string \<Rightarrow> (exn + CacheObject option) \<times> Db" where
  "Cache_set db k v =
     (if select_by_key (cache db) k = [] then
        (let row = \<lparr>key = k, val = v\<rparr>;
             db' = db\<lparr>cache := cache db @ [row]\<rparr>
         in (case fetchone_with CacheObject_row_factory [row] of
               Inl ex \<Rightarrow> (Inl ex, db)
             | Inr obj \<Rightarrow> (Inr obj, db')))
      else (Inl IntegrityError, db))"

section \<open>The liveness probe\<close>

text \<open>
  What \<open>os.kill(pid, 0)\<close> does: it returns, or raises \<open>OSError\<close> with an errno. The
  operating system is a parameter of the model, a function from the probed pid to this
  result. \<open>ESRCH\<close> and \<open>EPERM\<close> are the constants of Python's module \<open>errno\<close>
  (their Linux values).
\<close>

datatype kill_result = KillOk | KillOSError int

definition ESRCH :: int where
  "ESRCH = 3"

definition EPERM :: int where
  "EPERM = 1"

text \<open>\<open>is_pid_alive\<close>; \<open>Inl\<close> is the exception re-raised by the bare \<open>raise\<close>.\<close>

definition is_pid_alive :: "(int \<Rightarrow> kill_result) \<Rightarrow> int \<Rightarrow> exn + bool" where
  "is_pid_alive os_kill pid' =
     (if pid' \<le> 0 then Inr False
      else (case os_kill pid' of
              KillOSError errno \<Rightarrow>
                (if errno = ESRCH then Inr False
                 else if errno = EPERM then Inr True
                 else Inl (OSError errno))
            | KillOk \<Rightarrow> Inr True))"

section \<open>The hook pipeline (bou/fpi.py)\<close>

text \<open>
  A \<open>Config\<close> is a dictionary; its values are Python objects, of which the code only asks
  whether one is a \<open>pathlib.Path\<close>.
\<close>

datatype pyval = Path string | Str string | NoneVal

type_synonym Config = "(string \<times> pyval) list"

text \<open>The keyword arguments of a hook call.\<close>

record hook_kwargs =
  kw_ref :: string
  kw_ref_sha :: string
  kw_repo_path :: string
  kw_builds_path :: string
  kw_build_path :: "pyval option"
  kw_config :: "Config option"

text \<open>
  A hook implementation (a provider). It is handed the \<open>Cache\<close> and reaches the store
  through it, so its effect on the store is an effect on table \<open>cache\<close>: it maps the
  table before the call to the table after it, and it returns or raises. The
  implementations of \<open>configure\<close> return a \<open>Config\<close> or \<open>None\<close>.
\<close>

type_synonym provider = "hook_kwargs \<Rightarrow> cache_row list \<Rightarrow> (exn + unit) \<times> cache_row list"

type_synonym configure_provider =
  "hook_kwargs \<Rightarrow> cache_row list \<Rightarrow> (exn + Config option) \<times> cache_row list"

datatype stage =
  configure | pre_build | build | post_build | pre_release | release | post_release

text \<open>
  What a run did, in order: the hook implementations it invoked (stage, and position
  in the call order of that stage) and the \<open>SnapshotManager\<close> methods it called. The
  wrapper \<open>BuildPlugin.configure\<close> is part of every \<open>configure\<close> call and has no event of
  its own.
\<close>

datatype event =
    Hook stage nat
  | Get | Create | Adopt | Complete | ScheduleForRelease

record world =
  store :: Db
  calls :: "event list"

definition log_call :: "event \<Rightarrow> world \<Rightarrow> world" where
  "log_call ev w = w\<lparr>calls := calls w @ [ev]\<rparr>"

definition with_cache :: "cache_row list \<Rightarrow> world \<Rightarrow> world" where
  "with_cache c w = w\<lparr>store := (store w)\<lparr>cache := c\<rparr>\<rparr>"

text \<open>
  The implementations the user's build file registers, per stage, in the order the
  plugin manager calls them.
\<close>

record hooks =
  configure_impls :: "configure_provider list"
  pre_build_impls :: "provider list"
  build_impls :: "provider list"
  post_build_impls :: "provider list"
  pre_release_impls :: "provider list"
  release_impls :: "provider list"
  post_release_impls :: "provider list"

text \<open>
  A hook call of the plugin manager on a broadcast stage: the implementations run in
  call order, from position \<open>i\<close> on; an exception raised by one leaves the call at once.
\<close>

fun call_impls ::
  "stage \<Rightarrow> nat \<Rightarrow> provider list \<Rightarrow> hook_kwargs \<Rightarrow> world \<Rightarrow> (exn + unit) \<times> world" where
  "call_impls s i [] kw w = (Inr (), w)"
| "call_impls s i (p # ps) kw w =
     (let (r, c) = p kw (cache (store w));
          w' = log_call (Hook s i) (with_cache c w)
      in (case r of
            Inl ex \<Rightarrow> (Inl ex, w')
          | Inr u \<Rightarrow> call_impls s (Suc i) ps kw w'))"

text \<open>
  The default implementations of \<open>BuildPlugin\<close> for the broadcast stages: registered
  \<open>tryfirst\<close>, they only write a debug line.
\<close>

definition BuildPlugin_default :: provider where
  "BuildPlugin_default kw c = (Inr (), c)"

definition call_hook ::
  "stage \<Rightarrow> provider list \<Rightarrow> hook_kwargs \<Rightarrow> world \<Rightarrow> (exn + unit) \<times> world" where
  "call_hook s impls kw w = call_impls s 0 (BuildPlugin_default # impls) kw w"

text \<open>
  A hook call on the \<open>firstresult\<close> stage: the first result that is not \<open>None\<close> ends the
  call.
\<close>

fun call_firstresult ::
  "stage \<Rightarrow> nat \<Rightarrow> configure_provider list \<Rightarrow> hook_kwargs \<Rightarrow> world
     \<Rightarrow> (exn + Config option) \<times> world" where
  "call_firstresult s i [] kw w = (Inr None, w)"
| "call_firstresult s i (p # ps) kw w =
     (let (r, c) = p kw (cache (store w));
          w' = log_call (Hook s i) (with_cache c w)
      in (case r of
            Inl ex \<Rightarrow> (Inl ex, w')
          | Inr None \<Rightarrow> call_firstresult s (Suc i) ps kw w'
          | Inr (Some cfg) \<Rightarrow> (Inr (Some cfg), w')))"

text \<open>
  \<open>BuildPlugin.configure\<close>, the wrapper around the \<open>configure\<close> call: it receives the
  result of the wrapped call and validates it. \<open>"build_path" not in config\<close> on \<open>None\<close> is
  a \<open>TypeError\<close>. An exception of the wrapped call passes through.
\<close>

definition BuildPlugin_configure :: "Config option \<Rightarrow> exn + Config" where
  "BuildPlugin_configure config =
     (case config of
        None \<Rightarrow> Inl TypeError
      | Some cfg \<Rightarrow>
         (case map_of cfg ''build_path'' of
            None \<Rightarrow> Inl (ConfigError ''build_path is a required key'')
          | Some (Path p) \<Rightarrow> Inr cfg
          | Some other \<Rightarrow> Inl (ConfigError ''build_path should be of type pathlib.Path'')))"

definition call_configure ::
  "configure_provider list \<Rightarrow> hook_kwargs \<Rightarrow> world \<Rightarrow> (exn + Config) \<times> world" where
  "call_configure impls kw w =
     (case call_firstresult configure 0 impls kw w of
        (Inl ex, w') \<Rightarrow> (Inl ex, w')
      | (Inr config, w') \<Rightarrow> (BuildPlugin_configure config, w'))"


text \<open>The hook calls of a handler after \<open>configure\<close>, in program order.\<close>

fun call_hooks ::
  "(stage \<times> provider list) list \<Rightarrow> hook_kwargs \<Rightarrow> world \<Rightarrow> (exn + unit) \<times> world" where
  "call_hooks [] kw w = (Inr (), w)"
| "call_hooks ((s, impls) # rest) kw w =
     (case call_hook s impls kw w of
        (Inl ex, w') \<Rightarrow> (Inl ex, w')
      | (Inr u, w') \<Rightarrow> call_hooks rest kw w')"

section \<open>The handlers (bou/cli.py)\<close>

text \<open>
  How a handler ends: it returns, it leaves through \<open>sys.exit(n)\<close>, or an exception
  leaves it.
\<close>

datatype outcome = Returned | SysExit int | Raised exn

text \<open>
  What a handler reads from its arguments and from the world outside the store: the
  command line, the clock, its own pid, the process table, git (\<open>get_ref_sha\<close>,
  \<open>get_is_bare_repo\<close>, each returning or raising), the file system, and the build file
  (\<open>load_module_from_path\<close> and the registration of its hooks).
\<close>

record env =
  args_ref :: string
  args_user :: string
  args_builds_path :: string
  args_repo_path :: string
  args_schedule_release :: bool
  datetime_now :: datetime
  os_getpid :: int
  os_kill :: "int \<Rightarrow> kill_result"
  get_ref_sha :: "exn + string"
  repo_path_exists :: bool
  get_is_bare_repo :: "exn + bool"
  builds_path_exists :: bool
  load_module_from_path :: "exn + hooks"
  path_exists :: "string \<Rightarrow> bool"

text \<open>
  The checks both handlers make before they touch the store, in the order of
  \<open>build_handler\<close>; they end in the resolved \<open>ref_sha\<close> and the registered hooks.
  (\<open>release_handler\<close> loads the build file before it opens the store, which creates
  the tables only if they do not exist: the order makes no difference to the model.)
\<close>

definition preflight :: "env \<Rightarrow> outcome + (string \<times> hooks)" where
  "preflight e =
     (case get_ref_sha e of
        Inl ex \<Rightarrow> Inl (Raised ex)
      | Inr ref_sha' \<Rightarrow>
         if \<not> repo_path_exists e then Inl (SysExit 1)
         else (case get_is_bare_repo e of
                 Inl ex \<Rightarrow> Inl (Raised ex)
               | Inr git_repo_is_bare \<Rightarrow>
                  if \<not> git_repo_is_bare then Inl (SysExit 1)
                  else if \<not> builds_path_exists e then Inl (SysExit 1)
                  else (case load_module_from_path e of
                          Inl ex \<Rightarrow> Inl (Raised ex)
                        | Inr h \<Rightarrow> Inr (ref_sha', h))))"

text \<open>
  Lines 256 to 308 of \<open>build_handler\<close> and lines 431 to 483 of \<open>release_handler\<close>, which
  differ only in the action passed to \<open>adopt_into_running_state\<close> (and in a log
  message): look the snapshot up; create it when there is none, always with
  \<open>action = BUILD\<close> and \<open>state = RUNNING\<close>; probe the pid it records; leave with status 0
  when that pid is another, live process; adopt the snapshot when it is another, dead
  one; go on when it is the caller's own. The handler runs on the store with no other
  writer between its statements.
\<close>

definition establish_ownership ::
  "env \<Rightarrow> ProcessAction \<Rightarrow> string \<Rightarrow> world \<Rightarrow> (outcome + Snapshot) \<times> world" where
  "establish_ownership e adopt_action ref_sha' w =
     (let w1 = log_call Get w;
          (found, w2) =
            (case get (store w1) ref_sha' of
               Some s \<Rightarrow> (Some s, w1)
             | None \<Rightarrow>
                (let (created, db') =
                       create (store w1) (args_ref e) ref_sha' BUILD RUNNING
                         (datetime_now e) (args_user e) (os_getpid e)
                 in (created, log_call Create (w1\<lparr>store := db'\<rparr>))))
      in (case found of
            None \<Rightarrow> (Inl (SysExit 0), w2)
          | Some s \<Rightarrow>
             (case is_pid_alive (os_kill e) (pid s) of
                Inl ex \<Rightarrow> (Inl (Raised ex), w2)
              | Inr snapshot_pid_is_alive \<Rightarrow>
                 if os_getpid e \<noteq> pid s \<and> snapshot_pid_is_alive then (Inl (SysExit 0), w2)
                 else if os_getpid e \<noteq> pid s \<and> \<not> snapshot_pid_is_alive then
                   (let (adopted, db') =
                          adopt_into_running_state (store w2) s adopt_action
                            (datetime_now e) (args_user e) (os_getpid e);
                        w3 = log_call Adopt (w2\<lparr>store := db'\<rparr>)
                    in (case adopted of
                          None \<Rightarrow> (Inl (SysExit 0), w3)
                        | Some s' \<Rightarrow> (Inr s', w3)))
                 else (Inr s, w2))))"

text \<open>The keyword arguments of the \<open>configure\<close> call, and of the calls after it.\<close>

definition configure_kwargs :: "env \<Rightarrow> string \<Rightarrow> hook_kwargs" where
  "configure_kwargs e ref_sha' =
     \<lparr>kw_ref = args_ref e, kw_ref_sha = ref_sha', kw_repo_path = args_repo_path e,
      kw_builds_path = args_builds_path e, kw_build_path = None, kw_config = None\<rparr>"

definition stage_kwargs :: "env \<Rightarrow> string \<Rightarrow> Config \<Rightarrow> pyval \<Rightarrow> hook_kwargs" where
  "stage_kwargs e ref_sha' config build_path =
     (configure_kwargs e ref_sha')\<lparr>kw_build_path := Some build_path, kw_config := Some config\<rparr>"

text \<open>
  Lines 318 to 362 of \<open>build_handler\<close>: \<open>configure\<close>, \<open>config["build_path"]\<close>, then
  \<open>pre_build\<close>, \<open>build\<close> and \<open>post_build\<close>. \<open>Inl\<close> is the exception that leaves the
  handler.
\<close>

definition build_pipeline ::
  "env \<Rightarrow> hooks \<Rightarrow> string \<Rightarrow> world \<Rightarrow> (exn + unit) \<times> world" where
  "build_pipeline e h ref_sha' w =
     (case call_configure (configure_impls h) (configure_kwargs e ref_sha') w of
        (Inl ex, w1) \<Rightarrow> (Inl ex, w1)
      | (Inr config, w1) \<Rightarrow>
         (case map_of config ''build_path'' of
            None \<Rightarrow> (Inl KeyError, w1)
          | Some build_path \<Rightarrow>
             call_hooks
               [(pre_build, pre_build_impls h), (build, build_impls h),
                (post_build, post_build_impls h)]
               (stage_kwargs e ref_sha' config build_path) w1))"

text \<open>\<open>build_handler\<close>.\<close>

definition build_handler :: "env \<Rightarrow> world \<Rightarrow> outcome \<times> world" where
  "build_handler e w =
     (case preflight e of
        Inl out \<Rightarrow> (out, w)
      | Inr (ref_sha', h) \<Rightarrow>
         (case establish_ownership e BUILD ref_sha' w of
            (Inl out, w1) \<Rightarrow> (out, w1)
          | (Inr s, w1) \<Rightarrow>
             if action s \<noteq> BUILD then (SysExit 0, w1)
             else (case build_pipeline e h ref_sha' w1 of
                     (Inl ex, w2) \<Rightarrow> (Raised ex, w2)
                   | (Inr u, w2) \<Rightarrow>
                      if \<not> args_schedule_release e then
                        (let (completed, db') =
                               complete (store w2) s (datetime_now e) (args_user e)
                         in (SysExit 0, log_call Complete (w2\<lparr>store := db'\<rparr>)))
                      else
                        (let (scheduled, db') =
                               schedule_for_release (store w2) s (datetime_now e) (args_user e)
                         in (Returned, log_call ScheduleForRelease (w2\<lparr>store := db'\<rparr>))))))"

text \<open>
  Lines 493 to 543 of \<open>release_handler\<close>: \<open>configure\<close>, \<open>config["build_path"]\<close>, the
  check that the build exists (\<open>sys.exit(1)\<close> when it does not), then \<open>pre_release\<close>,
  \<open>release\<close> and \<open>post_release\<close>.
\<close>

definition release_pipeline ::
  "env \<Rightarrow> hooks \<Rightarrow> string \<Rightarrow> world \<Rightarrow> (outcome + unit) \<times> world" where
  "release_pipeline e h ref_sha' w =
     (case call_configure (configure_impls h) (configure_kwargs e ref_sha') w of
        (Inl ex, w1) \<Rightarrow> (Inl (Raised ex), w1)
      | (Inr config, w1) \<Rightarrow>
         (case map_of config ''build_path'' of
            None \<Rightarrow> (Inl (Raised KeyError), w1)
          | Some build_path \<Rightarrow>
             if \<not> (case build_path of Path p \<Rightarrow> path_exists e p | other \<Rightarrow> False)
             then (Inl (SysExit 1), w1)
             else (case call_hooks
                          [(pre_release, pre_release_impls h), (release, release_impls h),
                           (post_release, post_release_impls h)]
                          (stage_kwargs e ref_sha' config build_path) w1 of
                     (Inl ex, w2) \<Rightarrow> (Inl (Raised ex), w2)
                   | (Inr u, w2) \<Rightarrow> (Inr (), w2))))"

text \<open>\<open>release_handler\<close>.\<close>

definition release_handler :: "env \<Rightarrow> world \<Rightarrow> outcome \<times> world" where
  "release_handler e w =
     (case preflight e of
        Inl out \<Rightarrow> (out, w)
      | Inr (ref_sha', h) \<Rightarrow>
         (case establish_ownership e RELEASE ref_sha' w of
            (Inl out, w1) \<Rightarrow> (out, w1)
          | (Inr s, w1) \<Rightarrow>
             if action s \<noteq> RELEASE then (SysExit 0, w1)
             else (case release_pipeline e h ref_sha' w1 of
                     (Inl out, w2) \<Rightarrow> (out, w2)
                   | (Inr u, w2) \<Rightarrow>
                      (let (completed, db') =
                             complete (store w2) s (datetime_now e) (args_user e)
                       in (Returned, log_call Complete (w2\<lparr>store := db'\<rparr>))))))"

text \<open>The events of a run that are hook invocations.\<close>

fun is_hook :: "event \<Rightarrow> bool" where
  "is_hook (Hook s i) = True"
| "is_hook ev = False"


text \<open>
  Between the worlds \<open>w\<close> and \<open>w'\<close> a run has done nothing but invoke hook
  implementations: every event added to the trace is a hook invocation (so no method of
  \<open>SnapshotManager\<close> was called), and the tables \<open>snapshot\<close> and \<open>snapshot_history\<close> are
  as they were.
\<close>

definition hooks_only :: "world \<Rightarrow> world \<Rightarrow> bool" where
  "hooks_only w w' \<longleftrightarrow>
     snapshot (store w') = snapshot (store w)
     \<and> snapshot_history (store w') = snapshot_history (store w)
     \<and> take (length (calls w)) (calls w') = calls w
     \<and> list_all is_hook (drop (length (calls w)) (calls w'))"

section \<open>A scenario\<close>

text \<open>
  Concrete inputs on which the properties below are exercised: a build file whose
  \<open>configure\<close> returns a valid \<open>Config\<close>, whose \<open>build\<close> and \<open>release\<close> raise and whose other
  hooks return; a push of \<open>main\<close>, resolved to \<open>abc123\<close>, handled by the process with pid
  \<open>p\<close> on a machine whose process table is \<open>k\<close>; and a store that holds the given snapshot
  rows.
\<close>

definition demo_configure :: configure_provider where
  "demo_configure kw c = (Inr (Some [(''build_path'', Path ''/builds/abc123'')]), c)"

text \<open>
  Three more implementations of \<open>configure\<close>: one that returns \<open>None\<close>, one that raises,
  and one whose \<open>Config\<close> has no \<open>build_path\<close>.
\<close>

definition demo_configure_none :: configure_provider where
  "demo_configure_none kw c = (Inr None, c)"

definition demo_configure_fail :: configure_provider where
  "demo_configure_fail kw c = (Inl (HookError ''no config''), c)"

definition demo_configure_bad :: configure_provider where
  "demo_configure_bad kw c = (Inr (Some [(''venv_path'', Path ''/builds/abc123/.venv'')]), c)"

definition demo_ok :: provider where
  "demo_ok kw c = (Inr (), c)"

definition demo_fail :: provider where
  "demo_fail kw c = (Inl (HookError ''boom''), c)"

definition demo_hooks :: hooks where
  "demo_hooks =
     \<lparr>configure_impls = [demo_configure],
      pre_build_impls = [demo_ok], build_impls = [demo_fail], post_build_impls = [demo_ok],
      pre_release_impls = [demo_ok], release_impls = [demo_fail],
      post_release_impls = [demo_ok]\<rparr>"

definition demo_env :: "int \<Rightarrow> (int \<Rightarrow> kill_result) \<Rightarrow> env" where
  "demo_env p k =
     \<lparr>args_ref = ''main'', args_user = ''alice'', args_builds_path = ''/builds'',
      args_repo_path = ''/repo.git'', args_schedule_release = False, datetime_now = 20,
      os_getpid = p, os_kill = k, get_ref_sha = Inr ''abc123'', repo_path_exists = True,
      get_is_bare_repo = Inr True, builds_path_exists = True,
      load_module_from_path = Inr demo_hooks, path_exists = (\<lambda>path. True)\<rparr>"

definition demo_row :: "ProcessAction \<Rightarrow> ProcessState \<Rightarrow> int \<Rightarrow> Snapshot" where
  "demo_row a st p =
     \<lparr>ref = ''main'', ref_sha = ''abc123'', action = a, state = st, created_at = 10,
      created_by = ''bob'', updated_at = None, updated_by = None, pid = p, efd = 10,
      etd = None\<rparr>"

definition demo_world :: "Snapshot list \<Rightarrow> world" where
  "demo_world rows = \<lparr>store = empty_db\<lparr>snapshot := rows\<rparr>, calls = []\<rparr>"

text \<open>A process table in which only the pids of the given list are alive.\<close>

definition only_alive :: "int list \<Rightarrow> int \<Rightarrow> kill_result" where
  "only_alive ps p = (if p \<in> set ps then KillOk else KillOSError ESRCH)"

section \<open>Properties of the store\<close>

subsection \<open>Claiming a snapshot\<close>

lemma create_fresh:
  "select_by_ref_sha (snapshot db) sha = [] \<Longrightarrow>
   create db rf sha a st now user p =
     (Some \<lparr>ref = rf, ref_sha = sha, action = a, state = st, created_at = now, created_by = user,
            updated_at = None, updated_by = None, pid = p, efd = now, etd = None\<rparr>,
      db\<lparr>snapshot := snapshot db @
         [\<lparr>ref = rf, ref_sha = sha, action = a, state = st, created_at = now, created_by = user,
            updated_at = None, updated_by = None, pid = p, efd = now, etd = None\<rparr>]\<rparr>)"
  by (simp add: create_def Let_def)

lemma create_taken:
  "select_by_ref_sha (snapshot db) sha \<noteq> [] \<Longrightarrow> create db rf sha a st now user p = (None, db)"
  by (simp add: create_def Let_def)

lemma select_after_create:
  "select_by_ref_sha (snapshot (snd (create db rf sha a st now user p))) sha \<noteq> []"
  by (simp add: create_def Let_def select_by_ref_sha_def)

lemma create_attempts_taken:
  "select_by_ref_sha (snapshot db) sha \<noteq> [] \<Longrightarrow> \<forall>at \<in> set ats. fst (snd at) = sha \<Longrightarrow>
   create_attempts db ats = (replicate (length ats) None, db)"
  by (induction ats) (auto simp: create_taken)

lemma get_after_create:
  "select_by_ref_sha (snapshot db) sha = [] \<Longrightarrow>
   get (snd (create db rf sha a st now user p)) sha = fst (create db rf sha a st now user p)"
  by (simp add: create_def Let_def get_def select_by_ref_sha_def)

text \<open>
  Claim C1. A call of \<open>create\<close> with a \<open>ref_sha\<close> inserts a row exactly when the table holds
  no row for that \<open>ref_sha\<close>: then the row carries the supplied ref, action, state and pid,
  \<open>created_at\<close>, \<open>created_by\<close> and \<open>efd\<close> from the call, and it is what the call returns;
  when a row exists the call returns \<open>None\<close> and the store is unchanged. So of a run of
  claim attempts for one \<open>ref_sha\<close> on a store without a row for it, the first succeeds
  and every other returns \<open>None\<close>: exactly one succeeds, and a lookup afterwards finds
  the winner's row.
\<close>

theorem create_claims_once:
  "(select_by_ref_sha (snapshot db) sha = [] \<longrightarrow>
      create db rf sha a st now user p =
        (Some \<lparr>ref = rf, ref_sha = sha, action = a, state = st, created_at = now,
               created_by = user, updated_at = None, updated_by = None, pid = p, efd = now,
               etd = None\<rparr>,
         db\<lparr>snapshot := snapshot db @
            [\<lparr>ref = rf, ref_sha = sha, action = a, state = st, created_at = now,
              created_by = user, updated_at = None, updated_by = None, pid = p, efd = now,
              etd = None\<rparr>]\<rparr>))
   \<and> (select_by_ref_sha (snapshot db) sha \<noteq> [] \<longrightarrow>
        create db rf sha a st now user p = (None, db))
   \<and> (select_by_ref_sha (snapshot db) sha = [] \<longrightarrow> (\<forall>at \<in> set rest. fst (snd at) = sha) \<longrightarrow>
        (let first = (rf, sha, a, st, now, user, p);
             (results, db') = create_attempts db (first # rest)
         in results = fst (create db rf sha a st now user p) # replicate (length rest) None
            \<and> successes results = 1
            \<and> db' = snd (create db rf sha a st now user p)
            \<and> get db' sha = fst (create db rf sha a st now user p)))"
proof (intro conjI impI)
  assume fresh: "select_by_ref_sha (snapshot db) sha = []"
    and same: "\<forall>at \<in> set rest. fst (snd at) = sha"
  obtain res db1 where c: "create db rf sha a st now user p = (res, db1)"
    by (cases "create db rf sha a st now user p")
  have res: "res \<noteq> None" using c fresh by (auto simp: create_fresh)
  have "select_by_ref_sha (snapshot db1) sha \<noteq> []"
    using select_after_create [of db rf sha a st now user p] c by simp
  then have rest: "create_attempts db1 rest = (replicate (length rest) None, db1)"
    using same by (rule create_attempts_taken)
  have g: "get db1 sha = res"
    using get_after_create [OF fresh, of rf a st now user p] c by simp
  show "let first = (rf, sha, a, st, now, user, p);
             (results, db') = create_attempts db (first # rest)
         in results = fst (create db rf sha a st now user p) # replicate (length rest) None
            \<and> successes results = 1
            \<and> db' = snd (create db rf sha a st now user p)
            \<and> get db' sha = fst (create db rf sha a st now user p)"
    using c rest res g by (simp add: successes_def)
qed (simp_all add: create_fresh create_taken)

theorem create_claims_once_witness:
  "create empty_db ''main'' ''abc123'' BUILD RUNNING 10 ''alice'' 100 =
     (Some \<lparr>ref = ''main'', ref_sha = ''abc123'', action = BUILD, state = RUNNING, created_at = 10,
            created_by = ''alice'', updated_at = None, updated_by = None, pid = 100, efd = 10,
            etd = None\<rparr>,
      empty_db\<lparr>snapshot :=
         [\<lparr>ref = ''main'', ref_sha = ''abc123'', action = BUILD, state = RUNNING, created_at = 10,
           created_by = ''alice'', updated_at = None, updated_by = None, pid = 100, efd = 10,
           etd = None\<rparr>]\<rparr>)
   \<and> create (snd (create empty_db ''main'' ''abc123'' BUILD RUNNING 10 ''alice'' 100))
        ''main'' ''abc123'' BUILD RUNNING 11 ''bob'' 200 =
       (None, snd (create empty_db ''main'' ''abc123'' BUILD RUNNING 10 ''alice'' 100))
   \<and> successes (fst (create_attempts empty_db
        [(''main'', ''abc123'', BUILD, RUNNING, 10, ''alice'', 100),
         (''main'', ''abc123'', BUILD, RUNNING, 11, ''bob'', 200),
         (''dev'', ''abc123'', BUILD, RUNNING, 12, ''carol'', 300)])) = 1"
proof -
  let ?db1 = "snd (create empty_db ''main'' ''abc123'' BUILD RUNNING 10 ''alice'' 100)"
  have e: "select_by_ref_sha (snapshot empty_db) ''abc123'' = []"
    by (simp add: empty_db_def select_by_ref_sha_def)
  have t: "select_by_ref_sha (snapshot ?db1) ''abc123'' \<noteq> []"
    by (simp add: create_def Let_def empty_db_def select_by_ref_sha_def)
  have r: "\<forall>at \<in> set [(''main'', ''abc123'', BUILD, RUNNING, 11::nat, ''bob'', 200::int),
         (''dev'', ''abc123'', BUILD, RUNNING, 12, ''carol'', 300)]. fst (snd at) = ''abc123''"
    by simp
  show ?thesis
    using create_claims_once [of empty_db "''abc123''" "''main''" BUILD RUNNING 10 "''alice''" 100
        "[(''main'', ''abc123'', BUILD, RUNNING, 11, ''bob'', 200),
          (''dev'', ''abc123'', BUILD, RUNNING, 12, ''carol'', 300)]"]
      create_claims_once [of ?db1 "''abc123''" "''main''" BUILD RUNNING 11 "''bob''" 200 "[]"]
      e t r
    by (simp add: empty_db_def split: prod.splits)
qed

subsection \<open>The primary key\<close>

text \<open>
  Column \<open>ref_sha\<close> is the primary key of table \<open>snapshot\<close>: no two rows share a value.
  It holds of a new store and every method of \<open>SnapshotManager\<close> keeps it.
\<close>

lemma update_keeps_keys:
  "(\<And>r. ref_sha (upd r) = ref_sha r) \<Longrightarrow>
   map ref_sha (snd (sql_update wh upd rows)) = map ref_sha rows"
  by (induction rows) (simp_all add: sql_update_def)

lemma primary_key_empty: "distinct (map ref_sha (snapshot empty_db))"
  by (simp add: empty_db_def)

lemma primary_key_create:
  "distinct (map ref_sha (snapshot d)) \<Longrightarrow>
   distinct (map ref_sha (snapshot (snd (create d rf sha a st now user p))))"
  by (auto simp: create_def Let_def select_by_ref_sha_def filter_empty_conv)

lemma primary_key_adopt:
  "distinct (map ref_sha (snapshot d)) \<Longrightarrow>
   distinct (map ref_sha (snapshot (snd (adopt_into_running_state d s a now user p))))"
  using update_keeps_keys [of "\<lambda>r. r\<lparr>action := a, state := RUNNING, updated_at := Some now,
      updated_by := Some user, pid := p\<rparr>" "cas_where (ref_sha s) (state s)" "snapshot d"]
  by (auto simp: adopt_into_running_state_def split: prod.splits)

lemma primary_key_complete:
  "distinct (map ref_sha (snapshot d)) \<Longrightarrow>
   distinct (map ref_sha (snapshot (snd (complete d s now user))))"
  using update_keeps_keys [of "\<lambda>r. r\<lparr>state := COMPLETE, updated_at := Some now,
      updated_by := Some user, efd := now\<rparr>" "cas_where (ref_sha s) (state s)" "snapshot d"]
  by (auto simp: complete_def split: prod.splits)

lemma primary_key_schedule:
  "distinct (map ref_sha (snapshot d)) \<Longrightarrow>
   distinct (map ref_sha (snapshot (snd (schedule_for_release d s now user))))"
  using update_keeps_keys [of "\<lambda>r. r\<lparr>action := RELEASE, state := SCHEDULED,
      updated_at := Some now, updated_by := Some user, efd := now\<rparr>"
      "cas_where (ref_sha s) (state s)" "snapshot d"]
  by (auto simp: schedule_for_release_def split: prod.splits)

subsection \<open>Compare and swap\<close>

lemma select_single:
  "distinct (map ref_sha rows) \<Longrightarrow> fetchone (select_by_ref_sha rows sha) = Some r \<Longrightarrow>
   select_by_ref_sha rows sha = [r]"
proof (induction rows)
  case Nil
  then show ?case by (simp add: select_by_ref_sha_def)
next
  case (Cons x rows)
  show ?case
  proof (cases "ref_sha x = sha")
    case True
    with Cons.prems have "x = r" and "sha \<notin> ref_sha ` set rows"
      by (auto simp: select_by_ref_sha_def)
    then have "filter (\<lambda>r. ref_sha r = sha) rows = []"
      by (auto simp: filter_empty_conv)
    with True \<open>x = r\<close> show ?thesis by (simp add: select_by_ref_sha_def)
  next
    case False
    with Cons show ?thesis by (simp add: select_by_ref_sha_def)
  qed
qed

lemma select_single_mem:
  "select_by_ref_sha rows sha = [r] \<Longrightarrow> x \<in> set rows \<Longrightarrow> ref_sha x = sha \<Longrightarrow> x = r"
proof -
  assume a: "select_by_ref_sha rows sha = [r]" and b: "x \<in> set rows" and c: "ref_sha x = sha"
  from b c have "x \<in> set (select_by_ref_sha rows sha)" by (simp add: select_by_ref_sha_def)
  with a show "x = r" by simp
qed

lemma cas_filter:
  "filter (cas_where sha st) rows = filter (\<lambda>r. state r = st) (select_by_ref_sha rows sha)"
  by (induction rows) (simp_all add: select_by_ref_sha_def cas_where_def)

lemma sql_update_hit:
  assumes pk: "distinct (map ref_sha rows)"
    and g: "fetchone (select_by_ref_sha rows sha) = Some r"
    and st: "state r = st"
  shows "sql_update (cas_where sha st) upd rows =
           ([upd r], map (\<lambda>x. if ref_sha x = sha then upd r else x) rows)"
proof -
  have one: "select_by_ref_sha rows sha = [r]" using pk g by (rule select_single)
  have "filter (cas_where sha st) rows = [r]" using one st by (simp add: cas_filter)
  moreover have "map (\<lambda>x. if cas_where sha st x then upd x else x) rows =
                 map (\<lambda>x. if ref_sha x = sha then upd r else x) rows"
    using select_single_mem [OF one] st by (auto simp: cas_where_def)
  ultimately show ?thesis by (simp add: sql_update_def)
qed

lemma sql_update_miss:
  assumes "filter wh rows = []"
  shows "sql_update wh upd rows = ([], rows)"
proof -
  have "\<forall>x \<in> set rows. \<not> wh x" using assms by (simp add: filter_empty_conv)
  then have "map (\<lambda>r. if wh r then upd r else r) rows = rows"
    by (induction rows) auto
  with assms show ?thesis by (simp add: sql_update_def)
qed

lemma cas_miss:
  assumes pk: "distinct (map ref_sha rows)"
    and g: "fetchone (select_by_ref_sha rows sha) = None \<or>
            (\<exists>r. fetchone (select_by_ref_sha rows sha) = Some r \<and> state r \<noteq> st)"
  shows "filter (cas_where sha st) rows = []"
proof (cases "fetchone (select_by_ref_sha rows sha)")
  case None
  then have "select_by_ref_sha rows sha = []" by (cases "select_by_ref_sha rows sha") auto
  then show ?thesis by (simp add: cas_filter)
next
  case (Some r)
  with g have "state r \<noteq> st" by auto
  moreover have "select_by_ref_sha rows sha = [r]" using pk Some by (rule select_single)
  ultimately show ?thesis by (simp add: cas_filter)
qed

text \<open>
  Claim C2. \<open>adopt_into_running_state\<close> is a compare-and-swap on the state. On a table
  that respects its primary key: when the stored row for \<open>s.ref_sha\<close> has the state of \<open>s\<close>,
  that row (and no other) is replaced by itself with the given action, \<open>state = RUNNING\<close>,
  the given pid and \<open>updated_at\<close>, \<open>updated_by\<close> refreshed, and the new row is returned;
  when there is no such row or its state differs, the call returns \<open>None\<close> and the store
  is unchanged.
\<close>

theorem adopt_is_compare_and_swap:
  assumes pk: "distinct (map ref_sha (snapshot d))"
  shows "(\<forall>r. get d (ref_sha s) = Some r \<and> state r = state s \<longrightarrow>
            adopt_into_running_state d s a now user p =
              (Some (r\<lparr>action := a, state := RUNNING, updated_at := Some now,
                       updated_by := Some user, pid := p\<rparr>),
               d\<lparr>snapshot := map (\<lambda>x. if ref_sha x = ref_sha s
                                         then r\<lparr>action := a, state := RUNNING,
                                                updated_at := Some now,
                                                updated_by := Some user, pid := p\<rparr>
                                         else x) (snapshot d)\<rparr>))
       \<and> (get d (ref_sha s) = None \<or> (\<exists>r. get d (ref_sha s) = Some r \<and> state r \<noteq> state s) \<longrightarrow>
            adopt_into_running_state d s a now user p = (None, d))"
proof (intro conjI allI impI)
  fix r assume "get d (ref_sha s) = Some r \<and> state r = state s"
  then have "fetchone (select_by_ref_sha (snapshot d) (ref_sha s)) = Some r" "state r = state s"
    by (simp_all add: get_def)
  from sql_update_hit [OF pk this]
  show "adopt_into_running_state d s a now user p =
              (Some (r\<lparr>action := a, state := RUNNING, updated_at := Some now,
                       updated_by := Some user, pid := p\<rparr>),
               d\<lparr>snapshot := map (\<lambda>x. if ref_sha x = ref_sha s
                                         then r\<lparr>action := a, state := RUNNING,
                                                updated_at := Some now,
                                                updated_by := Some user, pid := p\<rparr>
                                         else x) (snapshot d)\<rparr>)"
    by (simp add: adopt_into_running_state_def)
next
  assume "get d (ref_sha s) = None \<or> (\<exists>r. get d (ref_sha s) = Some r \<and> state r \<noteq> state s)"
  then have "filter (cas_where (ref_sha s) (state s)) (snapshot d) = []"
    using pk by (intro cas_miss) (simp_all add: get_def)
  then show "adopt_into_running_state d s a now user p = (None, d)"
    by (simp add: adopt_into_running_state_def sql_update_miss)
qed

theorem adopt_is_compare_and_swap_witness:
  "distinct (map ref_sha (snapshot (empty_db\<lparr>snapshot := [demo_row BUILD RUNNING 100]\<rparr>)))
   \<and> get (empty_db\<lparr>snapshot := [demo_row BUILD RUNNING 100]\<rparr>) ''abc123''
       = Some (demo_row BUILD RUNNING 100)
   \<and> adopt_into_running_state (empty_db\<lparr>snapshot := [demo_row BUILD RUNNING 100]\<rparr>)
        (demo_row BUILD RUNNING 100) RELEASE 30 ''alice'' 200 =
       (Some ((demo_row RELEASE RUNNING 200)\<lparr>updated_at := Some 30, updated_by := Some ''alice''\<rparr>),
        empty_db\<lparr>snapshot :=
          [(demo_row RELEASE RUNNING 200)\<lparr>updated_at := Some 30, updated_by := Some ''alice''\<rparr>]\<rparr>)
   \<and> adopt_into_running_state (empty_db\<lparr>snapshot := [demo_row BUILD RUNNING 100]\<rparr>)
        (demo_row BUILD SCHEDULED 100) RELEASE 30 ''alice'' 200 =
       (None, empty_db\<lparr>snapshot := [demo_row BUILD RUNNING 100]\<rparr>)"
proof -
  let ?d = "empty_db\<lparr>snapshot := [demo_row BUILD RUNNING 100]\<rparr>"
  have pk: "distinct (map ref_sha (snapshot ?d))" by simp
  have g: "get ?d ''abc123'' = Some (demo_row BUILD RUNNING 100)"
    by (simp add: get_def select_by_ref_sha_def demo_row_def)
  show ?thesis
    using adopt_is_compare_and_swap [OF pk, of "demo_row BUILD RUNNING 100" RELEASE 30 "''alice''" 200]
      adopt_is_compare_and_swap [OF pk, of "demo_row BUILD SCHEDULED 100" RELEASE 30 "''alice''" 200]
      g
    by (simp add: demo_row_def)
qed

text \<open>
  Claim C3, as the code has it. \<open>complete\<close> is a compare-and-swap on the state. On a table
  that respects its primary key: when the stored row for \<open>s.ref_sha\<close> has the state of \<open>s\<close>,
  its state becomes \<open>COMPLETE\<close>, \<open>updated_at\<close> and \<open>updated_by\<close> are refreshed and \<open>efd\<close>
  (the start of the current state) is set to the time of the call, while \<open>etd\<close> (the
  completion timestamp of the data model) keeps the value it had; when there is no such
  row or its state differs, the call returns \<open>None\<close> and the store is unchanged.
\<close>

theorem complete_is_compare_and_swap:
  assumes pk: "distinct (map ref_sha (snapshot d))"
  shows "(\<forall>r. get d (ref_sha s) = Some r \<and> state r = state s \<longrightarrow>
            complete d s now user =
              (Some (r\<lparr>state := COMPLETE, updated_at := Some now, updated_by := Some user,
                       efd := now\<rparr>),
               d\<lparr>snapshot := map (\<lambda>x. if ref_sha x = ref_sha s
                                         then r\<lparr>state := COMPLETE, updated_at := Some now,
                                                updated_by := Some user, efd := now\<rparr>
                                         else x) (snapshot d)\<rparr>)
            \<and> etd (r\<lparr>state := COMPLETE, updated_at := Some now, updated_by := Some user,
                       efd := now\<rparr>) = etd r)
       \<and> (get d (ref_sha s) = None \<or> (\<exists>r. get d (ref_sha s) = Some r \<and> state r \<noteq> state s) \<longrightarrow>
            complete d s now user = (None, d))"
proof (intro conjI allI impI)
  fix r assume "get d (ref_sha s) = Some r \<and> state r = state s"
  then have "fetchone (select_by_ref_sha (snapshot d) (ref_sha s)) = Some r" "state r = state s"
    by (simp_all add: get_def)
  from sql_update_hit [OF pk this]
  show "complete d s now user =
              (Some (r\<lparr>state := COMPLETE, updated_at := Some now, updated_by := Some user,
                       efd := now\<rparr>),
               d\<lparr>snapshot := map (\<lambda>x. if ref_sha x = ref_sha s
                                         then r\<lparr>state := COMPLETE, updated_at := Some now,
                                                updated_by := Some user, efd := now\<rparr>
                                         else x) (snapshot d)\<rparr>)"
    by (simp add: complete_def)
next
  assume "get d (ref_sha s) = None \<or> (\<exists>r. get d (ref_sha s) = Some r \<and> state r \<noteq> state s)"
  then have "filter (cas_where (ref_sha s) (state s)) (snapshot d) = []"
    using pk by (intro cas_miss) (simp_all add: get_def)
  then show "complete d s now user = (None, d)"
    by (simp add: complete_def sql_update_miss)
qed simp

theorem complete_is_compare_and_swap_witness:
  "distinct (map ref_sha (snapshot (empty_db\<lparr>snapshot := [demo_row BUILD RUNNING 100]\<rparr>)))
   \<and> get (empty_db\<lparr>snapshot := [demo_row BUILD RUNNING 100]\<rparr>) ''abc123''
       = Some (demo_row BUILD RUNNING 100)
   \<and> complete (empty_db\<lparr>snapshot := [demo_row BUILD RUNNING 100]\<rparr>)
        (demo_row BUILD RUNNING 100) 30 ''alice'' =
       (Some ((demo_row BUILD COMPLETE 100)\<lparr>updated_at := Some 30, updated_by := Some ''alice'',
                 efd := 30\<rparr>),
        empty_db\<lparr>snapshot :=
          [(demo_row BUILD COMPLETE 100)\<lparr>updated_at := Some 30, updated_by := Some ''alice'',
                 efd := 30\<rparr>]\<rparr>)
   \<and> complete (empty_db\<lparr>snapshot := [demo_row BUILD RUNNING 100]\<rparr>)
        (demo_row BUILD SCHEDULED 100) 30 ''alice'' =
       (None, empty_db\<lparr>snapshot := [demo_row BUILD RUNNING 100]\<rparr>)"
proof -
  let ?d = "empty_db\<lparr>snapshot := [demo_row BUILD RUNNING 100]\<rparr>"
  have pk: "distinct (map ref_sha (snapshot ?d))" by simp
  have g: "get ?d ''abc123'' = Some (demo_row BUILD RUNNING 100)"
    by (simp add: get_def select_by_ref_sha_def demo_row_def)
  show ?thesis
    using complete_is_compare_and_swap [OF pk, of "demo_row BUILD RUNNING 100" 30 "''alice''"]
      complete_is_compare_and_swap [OF pk, of "demo_row BUILD SCHEDULED 100" 30 "''alice''"]
      g
    by (simp add: demo_row_def)
qed

text \<open>
  Claim C3 as stated says that \<open>complete\<close> stamps the completion timestamp. On a snapshot
  that was created and is \<open>RUNNING\<close>, \<open>complete\<close> succeeds and the row is \<open>COMPLETE\<close>, but its
  \<open>etd\<close> is still NULL: the UPDATE writes \<open>efd\<close>, and no statement of the program writes
  \<open>etd\<close>.
\<close>

theorem complete_leaves_etd_unset:
  "complete (empty_db\<lparr>snapshot := [demo_row BUILD RUNNING 100]\<rparr>)
     (demo_row BUILD RUNNING 100) 30 ''alice'' =
     (Some \<lparr>ref = ''main'', ref_sha = ''abc123'', action = BUILD, state = COMPLETE,
            created_at = 10, created_by = ''bob'', updated_at = Some 30,
            updated_by = Some ''alice'', pid = 100, efd = 30, etd = None\<rparr>,
      empty_db\<lparr>snapshot :=
        [\<lparr>ref = ''main'', ref_sha = ''abc123'', action = BUILD, state = COMPLETE,
            created_at = 10, created_by = ''bob'', updated_at = Some 30,
            updated_by = Some ''alice'', pid = 100, efd = 30, etd = None\<rparr>]\<rparr>)"
  by (simp add: complete_def sql_update_def cas_where_def demo_row_def empty_db_def)

subsection \<open>The history table\<close>

text \<open>
  Claim C5, as the code has it. No method of \<open>SnapshotManager\<close> writes table
  \<open>snapshot_history\<close>: \<open>create\<close>, \<open>adopt_into_running_state\<close>, \<open>complete\<close> and
  \<open>schedule_for_release\<close> leave it as it was, whether they succeed or not.
\<close>

theorem history_never_written:
  "snapshot_history (snd (create d rf sha a st now user p)) = snapshot_history d
   \<and> snapshot_history (snd (adopt_into_running_state d s a now user p)) = snapshot_history d
   \<and> snapshot_history (snd (complete d s now user)) = snapshot_history d
   \<and> snapshot_history (snd (schedule_for_release d s now user)) = snapshot_history d"
  by (simp add: create_def adopt_into_running_state_def complete_def schedule_for_release_def
      Let_def split: prod.splits)

text \<open>
  Claim C5 as stated says that every successful mutation appends a row to
  \<open>snapshot_history\<close>. A successful \<open>create\<close> on a new store inserts its row into
  \<open>snapshot\<close> and leaves \<open>snapshot_history\<close> empty.
\<close>

theorem create_appends_no_history:
  "fst (create empty_db ''main'' ''abc123'' BUILD RUNNING 10 ''alice'' 100) \<noteq> None
   \<and> length (snapshot (snd (create empty_db ''main'' ''abc123'' BUILD RUNNING 10 ''alice'' 100))) = 1
   \<and> snapshot_history (snd (create empty_db ''main'' ''abc123'' BUILD RUNNING 10 ''alice'' 100)) = []"
  by (simp add: create_def select_by_ref_sha_def empty_db_def Let_def)

subsection \<open>The liveness probe\<close>

text \<open>
  Claim C6. \<open>is_pid_alive\<close> answers dead for a pid that is not positive, dead when the
  probe fails with \<open>ESRCH\<close>, alive when the probe succeeds or fails with \<open>EPERM\<close>, and
  lets any other \<open>OSError\<close> reach the caller.
\<close>

theorem is_pid_alive_cases:
  "(pid' \<le> 0 \<longrightarrow> is_pid_alive k pid' = Inr False)
   \<and> (0 < pid' \<and> k pid' = KillOSError ESRCH \<longrightarrow> is_pid_alive k pid' = Inr False)
   \<and> (0 < pid' \<and> k pid' = KillOk \<longrightarrow> is_pid_alive k pid' = Inr True)
   \<and> (0 < pid' \<and> k pid' = KillOSError EPERM \<longrightarrow> is_pid_alive k pid' = Inr True)
   \<and> (\<forall>n. 0 < pid' \<and> k pid' = KillOSError n \<and> n \<noteq> ESRCH \<and> n \<noteq> EPERM \<longrightarrow>
        is_pid_alive k pid' = Inl (OSError n))"
  by (simp add: is_pid_alive_def ESRCH_def EPERM_def)

theorem is_pid_alive_cases_witness:
  "is_pid_alive (\<lambda>p. KillOk) 0 = Inr False
   \<and> is_pid_alive (\<lambda>p. KillOSError ESRCH) 100 = Inr False
   \<and> is_pid_alive (\<lambda>p. KillOk) 100 = Inr True
   \<and> is_pid_alive (\<lambda>p. KillOSError EPERM) 100 = Inr True
   \<and> is_pid_alive (\<lambda>p. KillOSError 22) 100 = Inl (OSError 22)"
  using is_pid_alive_cases [of 0 "\<lambda>p. KillOk"]
    is_pid_alive_cases [of 100 "\<lambda>p. KillOSError ESRCH"]
    is_pid_alive_cases [of 100 "\<lambda>p. KillOk"]
    is_pid_alive_cases [of 100 "\<lambda>p. KillOSError EPERM"]
    is_pid_alive_cases [of 100 "\<lambda>p. KillOSError 22"]
  by (simp add: ESRCH_def EPERM_def)

subsection \<open>The cache\<close>

lemma CacheObject_row_factory_raises: "CacheObject_row_factory row = Inl TypeError"
  by (simp add: CacheObject_row_factory_def CacheObject_new_def)

lemma Cache_set_always_raises:
  "Cache_set d k v =
     (Inl (if select_by_key (cache d) k = [] then TypeError else IntegrityError), d)"
  by (simp add: Cache_set_def fetchone_with_def CacheObject_row_factory_raises Let_def)

lemma Cache_get_never_returns_a_row:
  "Cache_get d k = (if select_by_key (cache d) k = [] then Inr None else Inl TypeError)"
  by (cases "select_by_key (cache d) k")
     (simp_all add: Cache_get_def fetchone_with_def CacheObject_row_factory_raises)

text \<open>
  Claim C9. \<open>Cache.set\<close> followed by \<open>Cache.get\<close> does not return the value. On a new store,
  \<open>set("k", "a")\<close> inserts the row, then fails to build its \<open>CacheObject\<close> and raises
  \<open>TypeError\<close>; the insert is rolled back, and \<open>get("k")\<close> returns \<open>None\<close>. Were a row for
  \<open>"k"\<close> in the table (written by another program), \<open>set("k", "b")\<close> would raise
  \<open>IntegrityError\<close> and leave the row as it is, and \<open>get("k")\<close> would raise \<open>TypeError\<close>: no
  call of \<open>set\<close> overwrites a value.
\<close>

theorem Cache_set_raises_and_stores_nothing:
  "Cache_set empty_db ''k'' ''a'' = (Inl TypeError, empty_db)
   \<and> Cache_get (snd (Cache_set empty_db ''k'' ''a'')) ''k'' = Inr None
   \<and> Cache_set (empty_db\<lparr>cache := [\<lparr>key = ''k'', val = ''a''\<rparr>]\<rparr>) ''k'' ''b'' =
       (Inl IntegrityError, empty_db\<lparr>cache := [\<lparr>key = ''k'', val = ''a''\<rparr>]\<rparr>)
   \<and> Cache_get (empty_db\<lparr>cache := [\<lparr>key = ''k'', val = ''a''\<rparr>]\<rparr>) ''k'' = Inl TypeError"
  by (simp add: Cache_set_def Cache_get_def fetchone_with_def CacheObject_row_factory_def
      CacheObject_new_def select_by_key_def Let_def empty_db_def)

section \<open>Properties of the pipeline\<close>

text \<open>Hook calls add hook invocations to the trace and leave the snapshot tables alone.\<close>

lemma hooks_only_iff:
  "hooks_only w w' \<longleftrightarrow>
     snapshot (store w') = snapshot (store w)
     \<and> snapshot_history (store w') = snapshot_history (store w)
     \<and> (\<exists>evs. calls w' = calls w @ evs \<and> list_all is_hook evs)"
proof -
  have "(take (length (calls w)) (calls w') = calls w
         \<and> list_all is_hook (drop (length (calls w)) (calls w')))
        \<longleftrightarrow> (\<exists>evs. calls w' = calls w @ evs \<and> list_all is_hook evs)"
  proof
    assume a: "take (length (calls w)) (calls w') = calls w
         \<and> list_all is_hook (drop (length (calls w)) (calls w'))"
    have "calls w' = take (length (calls w)) (calls w') @ drop (length (calls w)) (calls w')"
      by simp
    with a have "calls w' = calls w @ drop (length (calls w)) (calls w')" by simp
    with a show "\<exists>evs. calls w' = calls w @ evs \<and> list_all is_hook evs" by blast
  next
    assume "\<exists>evs. calls w' = calls w @ evs \<and> list_all is_hook evs"
    then show "take (length (calls w)) (calls w') = calls w
         \<and> list_all is_hook (drop (length (calls w)) (calls w'))" by auto
  qed
  then show ?thesis unfolding hooks_only_def by blast
qed

lemma hooks_only_refl: "hooks_only w w"
  by (simp add: hooks_only_iff)

lemma hooks_only_trans: "hooks_only w w' \<Longrightarrow> hooks_only w' w'' \<Longrightarrow> hooks_only w w''"
  by (auto simp: hooks_only_iff)

lemma hooks_only_step: "hooks_only w (log_call (Hook s i) (with_cache c w))"
  by (simp add: hooks_only_iff log_call_def with_cache_def)

lemma call_impls_hooks_only: "hooks_only w (snd (call_impls s i ps kw w))"
proof (induction ps arbitrary: i w)
  case Nil
  show ?case by (simp add: hooks_only_refl)
next
  case (Cons p ps)
  obtain r c where pc: "p kw (cache (store w)) = (r, c)" by (cases "p kw (cache (store w))")
  let ?w' = "log_call (Hook s i) (with_cache c w)"
  have step: "hooks_only w ?w'" by (rule hooks_only_step)
  show ?case
  proof (cases r)
    case (Inl ex)
    with pc step show ?thesis by simp
  next
    case (Inr u)
    have "hooks_only ?w' (snd (call_impls s (Suc i) ps kw ?w'))" by (rule Cons.IH)
    with step have "hooks_only w (snd (call_impls s (Suc i) ps kw ?w'))"
      by (rule hooks_only_trans)
    with pc Inr show ?thesis by simp
  qed
qed

lemma call_firstresult_hooks_only: "hooks_only w (snd (call_firstresult s i ps kw w))"
proof (induction ps arbitrary: i w)
  case Nil
  show ?case by (simp add: hooks_only_refl)
next
  case (Cons p ps)
  obtain r c where pc: "p kw (cache (store w)) = (r, c)" by (cases "p kw (cache (store w))")
  let ?w' = "log_call (Hook s i) (with_cache c w)"
  have step: "hooks_only w ?w'" by (rule hooks_only_step)
  show ?case
  proof (cases r)
    case (Inl ex)
    with pc step show ?thesis by simp
  next
    case (Inr res)
    show ?thesis
    proof (cases res)
      case None
      have "hooks_only ?w' (snd (call_firstresult s (Suc i) ps kw ?w'))" by (rule Cons.IH)
      with step have "hooks_only w (snd (call_firstresult s (Suc i) ps kw ?w'))"
        by (rule hooks_only_trans)
      with pc Inr None show ?thesis by simp
    next
      case (Some cfg)
      with pc Inr step show ?thesis by simp
    qed
  qed
qed

lemma call_configure_hooks_only: "hooks_only w (snd (call_configure impls kw w))"
proof -
  obtain r w' where c: "call_firstresult configure 0 impls kw w = (r, w')"
    by (cases "call_firstresult configure 0 impls kw w")
  have "hooks_only w w'" using call_firstresult_hooks_only [of w configure 0 impls kw] c by simp
  with c show ?thesis by (cases r) (simp_all add: call_configure_def)
qed

lemma call_hook_hooks_only: "hooks_only w (snd (call_hook s impls kw w))"
  unfolding call_hook_def by (rule call_impls_hooks_only)

lemma call_hooks_hooks_only: "hooks_only w (snd (call_hooks stages kw w))"
proof (induction stages arbitrary: w)
  case Nil
  show ?case by (simp add: hooks_only_refl)
next
  case (Cons st stages)
  obtain s impls where st: "st = (s, impls)" by (cases st)
  obtain r w' where c: "call_hook s impls kw w = (r, w')" by (cases "call_hook s impls kw w")
  have step: "hooks_only w w'" using call_hook_hooks_only [of w s impls kw] c by simp
  show ?case
  proof (cases r)
    case (Inl ex)
    with st c step show ?thesis by simp
  next
    case (Inr u)
    have "hooks_only w' (snd (call_hooks stages kw w'))" by (rule Cons.IH)
    with step have "hooks_only w (snd (call_hooks stages kw w'))" by (rule hooks_only_trans)
    with st c Inr show ?thesis by simp
  qed
qed

lemma build_pipeline_hooks_only: "hooks_only w (snd (build_pipeline e h sha w))"
proof -
  obtain r w1 where c: "call_configure (configure_impls h) (configure_kwargs e sha) w = (r, w1)"
    by (cases "call_configure (configure_impls h) (configure_kwargs e sha) w")
  have step: "hooks_only w w1"
    using call_configure_hooks_only [of w "configure_impls h" "configure_kwargs e sha"] c by simp
  show ?thesis
  proof (cases r)
    case (Inl ex)
    with c step show ?thesis by (simp add: build_pipeline_def)
  next
    case (Inr config)
    show ?thesis
    proof (cases "map_of config ''build_path''")
      case None
      with c Inr step show ?thesis by (simp add: build_pipeline_def)
    next
      case (Some bp)
      have "hooks_only w1 (snd (call_hooks [(pre_build, pre_build_impls h),
               (build, build_impls h), (post_build, post_build_impls h)]
               (stage_kwargs e sha config bp) w1))"
        by (rule call_hooks_hooks_only)
      with step have "hooks_only w (snd (call_hooks [(pre_build, pre_build_impls h),
               (build, build_impls h), (post_build, post_build_impls h)]
               (stage_kwargs e sha config bp) w1))"
        by (rule hooks_only_trans)
      with c Inr Some show ?thesis by (simp add: build_pipeline_def del: call_hooks.simps)
    qed
  qed
qed

lemma release_pipeline_hooks_only: "hooks_only w (snd (release_pipeline e h sha w))"
proof -
  obtain r w1 where c: "call_configure (configure_impls h) (configure_kwargs e sha) w = (r, w1)"
    by (cases "call_configure (configure_impls h) (configure_kwargs e sha) w")
  have step: "hooks_only w w1"
    using call_configure_hooks_only [of w "configure_impls h" "configure_kwargs e sha"] c by simp
  show ?thesis
  proof (cases r)
    case (Inl ex)
    with c step show ?thesis by (simp add: release_pipeline_def)
  next
    case (Inr config)
    show ?thesis
    proof (cases "map_of config ''build_path''")
      case None
      with c Inr step show ?thesis by (simp add: release_pipeline_def)
    next
      case (Some bp)
      let ?run = "call_hooks [(pre_release, pre_release_impls h),
               (release, release_impls h), (post_release, post_release_impls h)]
               (stage_kwargs e sha config bp) w1"
      obtain r2 w2 where run: "?run = (r2, w2)" by (cases ?run)
      have "hooks_only w1 (snd ?run)" by (rule call_hooks_hooks_only)
      with step have "hooks_only w (snd ?run)" by (rule hooks_only_trans)
      with run have "hooks_only w w2" by simp
      with c Inr Some step run show ?thesis
        by (cases r2) (simp_all add: release_pipeline_def del: call_hooks.simps)
    qed
  qed
qed

text \<open>An exception ends a hook call, and the calls of a handler, at once.\<close>

lemma call_impls_abort:
  "call_impls s i pre kw w = (Inr (), w1) \<Longrightarrow> fst (p kw (cache (store w1))) = Inl ex \<Longrightarrow>
   call_impls s i (pre @ p # post) kw w =
     (Inl ex, log_call (Hook s (i + length pre)) (with_cache (snd (p kw (cache (store w1)))) w1))"
proof (induction pre arbitrary: i w)
  case Nil
  then show ?case by (simp add: case_prod_unfold)
next
  case (Cons q pre)
  obtain r c where qc: "q kw (cache (store w)) = (r, c)" by (cases "q kw (cache (store w))")
  let ?w' = "log_call (Hook s i) (with_cache c w)"
  from Cons.prems(1) qc obtain u where r: "r = Inr u"
    and rest: "call_impls s (Suc i) pre kw ?w' = (Inr (), w1)"
    by (cases r) simp_all
  from Cons.IH [OF rest Cons.prems(2)] qc r show ?case by simp
qed

lemma call_hooks_abort:
  "call_hooks spre kw w = (Inr (), w1) \<Longrightarrow> call_hook s impls kw w1 = (Inl ex, w2) \<Longrightarrow>
   call_hooks (spre @ (s, impls) # spost) kw w = (Inl ex, w2)"
proof (induction spre arbitrary: w)
  case Nil
  then show ?case by simp
next
  case (Cons st spre)
  obtain s' impls' where st: "st = (s', impls')" by (cases st)
  obtain r w' where c: "call_hook s' impls' kw w = (r, w')" by (cases "call_hook s' impls' kw w")
  from Cons.prems(1) st c obtain u where r: "r = Inr u"
    and rest: "call_hooks spre kw w' = (Inr (), w1)"
    by (cases r) simp_all
  from Cons.IH [OF rest Cons.prems(2)] st c r show ?case by simp
qed

text \<open>
  From a raising implementation to the result of the hook call: in the \<open>configure\<close>
  call (an implementation, or the wrapper), and in a broadcast stage among the stages of
  a handler.
\<close>

lemma call_firstresult_abort:
  "call_firstresult s i pre kw w = (Inr None, w1) \<Longrightarrow> fst (p kw (cache (store w1))) = Inl ex \<Longrightarrow>
   call_firstresult s i (pre @ p # post) kw w =
     (Inl ex, log_call (Hook s (i + length pre)) (with_cache (snd (p kw (cache (store w1)))) w1))"
proof (induction pre arbitrary: i w)
  case Nil
  then show ?case by (simp add: case_prod_unfold)
next
  case (Cons q pre)
  obtain r c where qc: "q kw (cache (store w)) = (r, c)" by (cases "q kw (cache (store w))")
  let ?w' = "log_call (Hook s i) (with_cache c w)"
  from Cons.prems(1) qc have r: "r = Inr None"
    and rest: "call_firstresult s (Suc i) pre kw ?w' = (Inr None, w1)"
    by (cases r; cases "projr r"; simp)+
  from Cons.IH [OF rest Cons.prems(2)] qc r show ?case by simp
qed

lemma configure_provider_raises:
  assumes "call_firstresult configure 0 cpre kw w = (Inr None, wq)"
    and "fst (cp kw (cache (store wq))) = Inl ex"
  shows "call_configure (cpre @ cp # cpost) kw w =
           (Inl ex, log_call (Hook configure (length cpre))
                      (with_cache (snd (cp kw (cache (store wq)))) wq))"
  using call_firstresult_abort [where p = cp and post = cpost, OF assms]
  by (simp add: call_configure_def)

lemma configure_wrapper_raises:
  assumes "call_firstresult configure 0 impls kw w = (Inr config, wc)"
    and "BuildPlugin_configure config = Inl ex"
  shows "call_configure impls kw w = (Inl ex, wc)"
  using assms by (simp add: call_configure_def)

lemma configure_failure_ends_pipelines:
  assumes "call_configure (configure_impls h) (configure_kwargs e sha) w = (Inl ex, w')"
  shows "build_pipeline e h sha w = (Inl ex, w')"
    and "release_pipeline e h sha w = (Inl (Raised ex), w')"
  using assms by (simp_all add: build_pipeline_def release_pipeline_def)

lemma stage_provider_raises:
  assumes split: "BuildPlugin_default # impls = pre @ p # post"
    and before: "call_impls st 0 pre kw w = (Inr (), wq)"
    and raises: "fst (p kw (cache (store wq))) = Inl ex"
  shows "call_hook st impls kw w =
           (Inl ex, log_call (Hook st (length pre)) (with_cache (snd (p kw (cache (store wq)))) wq))"
  using call_impls_abort [where p = p and post = post, OF before raises] split
  by (simp add: call_hook_def)

lemma stage_failure_ends_hooks:
  assumes stages: "stages = spre @ (st, impls) # spost"
    and sbefore: "call_hooks spre kw w = (Inr (), wp)"
    and split: "BuildPlugin_default # impls = pre @ p # post"
    and before: "call_impls st 0 pre kw wp = (Inr (), wq)"
    and raises: "fst (p kw (cache (store wq))) = Inl ex"
  shows "call_hooks stages kw w =
           (Inl ex, log_call (Hook st (length pre)) (with_cache (snd (p kw (cache (store wq)))) wq))"
  using call_hooks_abort [where spost = spost, OF sbefore
      stage_provider_raises [where p = p, OF split before raises]] stages
  by simp

section \<open>Properties of the handlers\<close>

subsection \<open>Establishing ownership\<close>

lemma fetchone_filter_holds: "fetchone (filter P rows) = Some x \<Longrightarrow> P x"
proof -
  assume "fetchone (filter P rows) = Some x"
  then have "x \<in> set (filter P rows)" by (cases "filter P rows") auto
  then show "P x" by simp
qed

lemma fetchone_filter_narrow:
  "fetchone (filter P rows) = Some x \<Longrightarrow> Q x \<Longrightarrow> (\<And>y. Q y \<Longrightarrow> P y) \<Longrightarrow>
   fetchone (filter Q rows) = Some x"
  by (induction rows) (auto split: if_splits)

lemma fetchone_map: "fetchone (map f xs) = map_option f (fetchone xs)"
  by (cases xs) simp_all

lemma filter_map_invariant:
  "(\<And>r. P (f r) = P r) \<Longrightarrow> filter P (map f rows) = map f (filter P rows)"
  by (induction rows) simp_all

lemma sql_update_first:
  assumes g: "fetchone (select_by_ref_sha rows sha) = Some s0"
    and keep: "\<And>r. ref_sha (upd r) = ref_sha r"
  shows "fetchone (fst (sql_update (cas_where (ref_sha s0) (state s0)) upd rows)) = Some (upd s0)"
    and "fetchone (select_by_ref_sha (snd (sql_update (cas_where (ref_sha s0) (state s0)) upd rows)) sha)
         = Some (upd s0)"
proof -
  let ?P = "\<lambda>r. ref_sha r = sha"
  let ?Q = "cas_where (ref_sha s0) (state s0)"
  let ?g = "\<lambda>r. if ?Q r then upd r else r"
  have g': "fetchone (filter ?P rows) = Some s0" using g by (simp add: select_by_ref_sha_def)
  then have sha: "ref_sha s0 = sha" by (rule fetchone_filter_holds)
  have q: "?Q s0" by (simp add: cas_where_def)
  have "fetchone (filter ?Q rows) = Some s0"
    using g' q by (rule fetchone_filter_narrow) (simp add: cas_where_def sha)
  then show "fetchone (fst (sql_update ?Q upd rows)) = Some (upd s0)"
    by (simp add: sql_update_def fetchone_map)
  have "filter ?P (map ?g rows) = map ?g (filter ?P rows)"
    by (rule filter_map_invariant) (simp add: keep)
  then have "fetchone (filter ?P (map ?g rows)) = map_option ?g (fetchone (filter ?P rows))"
    by (simp add: fetchone_map)
  with g' q show "fetchone (select_by_ref_sha (snd (sql_update ?Q upd rows)) sha) = Some (upd s0)"
    by (simp add: sql_update_def select_by_ref_sha_def)
qed

lemma adopt_found:
  assumes g: "get d sha = Some s0"
  shows "fst (adopt_into_running_state d s0 a now user p) =
           Some (s0\<lparr>action := a, state := RUNNING, updated_at := Some now,
                    updated_by := Some user, pid := p\<rparr>)"
    and "get (snd (adopt_into_running_state d s0 a now user p)) sha =
           Some (s0\<lparr>action := a, state := RUNNING, updated_at := Some now,
                    updated_by := Some user, pid := p\<rparr>)"
proof -
  let ?upd = "\<lambda>r. r\<lparr>action := a, state := RUNNING, updated_at := Some now,
                    updated_by := Some user, pid := p\<rparr>"
  have g': "fetchone (select_by_ref_sha (snapshot d) sha) = Some s0" using g by (simp add: get_def)
  have k: "\<And>r. ref_sha (?upd r) = ref_sha r" by simp
  from sql_update_first(1) [OF g' k]
  show "fst (adopt_into_running_state d s0 a now user p) = Some (?upd s0)"
    by (simp add: adopt_into_running_state_def case_prod_unfold)
  from sql_update_first(2) [OF g' k]
  show "get (snd (adopt_into_running_state d s0 a now user p)) sha = Some (?upd s0)"
    by (simp add: adopt_into_running_state_def get_def case_prod_unfold Let_def)
qed

lemma establish_found:
  assumes g: "get (store w) sha = Some s0"
  shows "establish_ownership e a sha w =
     (case is_pid_alive (os_kill e) (pid s0) of
        Inl ex \<Rightarrow> (Inl (Raised ex), log_call Get w)
      | Inr alive \<Rightarrow>
         if os_getpid e \<noteq> pid s0 \<and> alive then (Inl (SysExit 0), log_call Get w)
         else if os_getpid e \<noteq> pid s0 then
           (Inr (s0\<lparr>action := a, state := RUNNING, updated_at := Some (datetime_now e),
                    updated_by := Some (args_user e), pid := os_getpid e\<rparr>),
            log_call Adopt ((log_call Get w)\<lparr>store :=
              snd (adopt_into_running_state (store w) s0 a (datetime_now e) (args_user e)
                     (os_getpid e))\<rparr>))
         else (Inr s0, log_call Get w))"
proof -
  have s: "store (log_call Get w) = store w" by (simp add: log_call_def)
  obtain r d' where ad: "adopt_into_running_state (store w) s0 a (datetime_now e) (args_user e)
                     (os_getpid e) = (r, d')"
    by (cases "adopt_into_running_state (store w) s0 a (datetime_now e) (args_user e) (os_getpid e)")
  have r: "r = Some (s0\<lparr>action := a, state := RUNNING, updated_at := Some (datetime_now e),
                    updated_by := Some (args_user e), pid := os_getpid e\<rparr>)"
    using adopt_found(1) [OF g, of a "datetime_now e" "args_user e" "os_getpid e"] ad by simp
  show ?thesis
    using g s ad r
    by (simp add: establish_ownership_def Let_def split: sum.splits)
qed

lemma establish_fresh:
  assumes g: "get (store w) sha = None"
  shows "establish_ownership e a sha w =
     (case is_pid_alive (os_kill e) (os_getpid e) of
        Inl ex \<Rightarrow> Inl (Raised ex)
      | Inr alive \<Rightarrow>
          Inr \<lparr>ref = args_ref e, ref_sha = sha, action = BUILD, state = RUNNING,
               created_at = datetime_now e, created_by = args_user e, updated_at = None,
               updated_by = None, pid = os_getpid e, efd = datetime_now e, etd = None\<rparr>,
      log_call Create ((log_call Get w)\<lparr>store :=
        (store w)\<lparr>snapshot := snapshot (store w) @
           [\<lparr>ref = args_ref e, ref_sha = sha, action = BUILD, state = RUNNING,
               created_at = datetime_now e, created_by = args_user e, updated_at = None,
               updated_by = None, pid = os_getpid e, efd = datetime_now e, etd = None\<rparr>]\<rparr>\<rparr>))"
proof -
  have s: "store (log_call Get w) = store w" by (simp add: log_call_def)
  have "select_by_ref_sha (snapshot (store w)) sha = []"
    using g by (cases "select_by_ref_sha (snapshot (store w)) sha") (simp_all add: get_def)
  then have c: "create (store w) (args_ref e) sha BUILD RUNNING (datetime_now e) (args_user e)
                  (os_getpid e) =
     (Some \<lparr>ref = args_ref e, ref_sha = sha, action = BUILD, state = RUNNING,
               created_at = datetime_now e, created_by = args_user e, updated_at = None,
               updated_by = None, pid = os_getpid e, efd = datetime_now e, etd = None\<rparr>,
      (store w)\<lparr>snapshot := snapshot (store w) @
           [\<lparr>ref = args_ref e, ref_sha = sha, action = BUILD, state = RUNNING,
               created_at = datetime_now e, created_by = args_user e, updated_at = None,
               updated_by = None, pid = os_getpid e, efd = datetime_now e, etd = None\<rparr>]\<rparr>)"
    by (simp add: create_def Let_def)
  show ?thesis
    using g s c
    by (simp add: establish_ownership_def Let_def split: sum.splits)
qed

lemma establish_get:
  assumes est: "establish_ownership e a sha w = (Inr s, w1)"
  shows "get (store w1) sha = Some s"
proof (cases "get (store w) sha")
  case None
  then have sel: "select_by_ref_sha (snapshot (store w)) sha = []"
    by (cases "select_by_ref_sha (snapshot (store w)) sha") (simp_all add: get_def)
  from est show ?thesis
    unfolding establish_fresh [OF None]
    by (auto simp: get_def log_call_def select_by_ref_sha_def sel [unfolded select_by_ref_sha_def]
        split: sum.splits)
next
  case (Some s0)
  from est show ?thesis
    unfolding establish_found [OF Some]
    using Some adopt_found(2) [OF Some, of a "datetime_now e" "args_user e" "os_getpid e"]
    by (auto simp: log_call_def split: sum.splits if_splits)
qed

lemma establish_state:
  assumes est: "establish_ownership e a sha w = (Inr s, w1)"
  shows "state s = RUNNING \<or> (get (store w) sha = Some s \<and> pid s = os_getpid e \<and> store w1 = store w)"
proof (cases "get (store w) sha")
  case None
  from est show ?thesis
    unfolding establish_fresh [OF None] by (auto split: sum.splits)
next
  case (Some s0)
  from est show ?thesis
    unfolding establish_found [OF Some]
    using Some by (auto simp: log_call_def split: sum.splits if_splits)
qed

lemma establish_events:
  assumes est: "establish_ownership e a sha w = (r, w1)"
  shows "\<exists>evs. calls w1 = calls w @ evs \<and> set evs \<subseteq> {Get, Create, Adopt}"
proof (cases "get (store w) sha")
  case None
  from est show ?thesis
    unfolding establish_fresh [OF None] by (auto simp: log_call_def split: sum.splits)
next
  case (Some s0)
  from est show ?thesis
    unfolding establish_found [OF Some]
    by (auto simp: log_call_def split: sum.splits if_splits)
qed

lemma get_hooks_only: "hooks_only w w' \<Longrightarrow> get (store w') sha = get (store w) sha"
  by (simp add: hooks_only_def get_def)

lemma failed_run_facts:
  assumes est: "establish_ownership e a sha w = (Inr s, w1)"
    and ho: "hooks_only w1 w2"
  shows "Complete \<notin> set (drop (length (calls w)) (calls w2))
         \<and> ScheduleForRelease \<notin> set (drop (length (calls w)) (calls w2))
         \<and> get (store w2) sha = Some s
         \<and> (state s = RUNNING \<or> (get (store w) sha = Some s \<and> pid s = os_getpid e))"
proof -
  from establish_events [OF est] obtain evs1 where
    e1: "calls w1 = calls w @ evs1" and s1: "set evs1 \<subseteq> {Get, Create, Adopt}" by blast
  from ho obtain evs2 where e2: "calls w2 = calls w1 @ evs2" and h2: "list_all is_hook evs2"
    by (auto simp: hooks_only_iff)
  have d: "drop (length (calls w)) (calls w2) = evs1 @ evs2" using e1 e2 by simp
  have "Complete \<notin> set evs1" "ScheduleForRelease \<notin> set evs1" using s1 by auto
  moreover have "Complete \<notin> set evs2" "ScheduleForRelease \<notin> set evs2"
    using h2 by (auto simp: list_all_iff)
  moreover have "get (store w2) sha = Some s"
    using get_hooks_only [OF ho] establish_get [OF est] by simp
  moreover have "state s = RUNNING \<or> (get (store w) sha = Some s \<and> pid s = os_getpid e)"
    using establish_state [OF est] by blast
  ultimately show ?thesis using d by simp
qed

text \<open>The definitions a run of the scenario unfolds.\<close>

lemmas demo_defs =
  build_handler_def release_handler_def preflight_def demo_env_def demo_world_def demo_row_def
  establish_ownership_def log_call_def get_def select_by_ref_sha_def is_pid_alive_def
  only_alive_def build_pipeline_def release_pipeline_def call_configure_def demo_hooks_def
  demo_configure_def with_cache_def BuildPlugin_configure_def call_hook_def
  BuildPlugin_default_def demo_ok_def demo_fail_def configure_kwargs_def stage_kwargs_def
  empty_db_def create_def adopt_into_running_state_def sql_update_def cas_where_def
  ESRCH_def Let_def

subsection \<open>A failing pipeline\<close>

lemmas demo_configure_defs =
  demo_configure_none_def demo_configure_fail_def demo_configure_bad_def

text \<open>
  Claim C4, as the code has it. When a hook implementation raises during a build or a
  release run, the run ends there. Within a stage, the implementations after the one
  that raised are not invoked: the call ends in the world the raising implementation
  left, whatever follows it in the call order. Within a handler, the stages after the
  one that raised are not entered. For the handler as a whole: when the pipeline ends
  in an exception, the exception leaves the handler; from the moment ownership was
  established the run has only invoked hooks, so it has called neither \<open>complete\<close> nor
  \<open>schedule_for_release\<close> and tables \<open>snapshot\<close> and \<open>snapshot_history\<close> are as ownership
  left them; the stored row is the snapshot the run owned, which is \<open>RUNNING\<close> when the
  run created or adopted it, and otherwise is the row the run found, recording the
  run's own pid, in the state it already had. And the pipeline does end in the
  exception, in the world the raising implementation left, whichever implementation
  raises: an implementation of \<open>configure\<close> reached after the ones before it returned
  \<open>None\<close>; the wrapper \<open>BuildPlugin.configure\<close> rejecting the result; an implementation of
  \<open>pre_build\<close>, \<open>build\<close> or \<open>post_build\<close>, or of \<open>pre_release\<close>, \<open>release\<close> or \<open>post_release\<close>,
  reached after the stages and implementations before it returned.
\<close>

theorem failed_pipeline_stops_the_run:
  "(call_impls st i pre kw w = (Inr (), w1) \<and> fst (p kw (cache (store w1))) = Inl ex \<longrightarrow>
      call_impls st i (pre @ p # post) kw w =
        (Inl ex, log_call (Hook st (i + length pre)) (with_cache (snd (p kw (cache (store w1)))) w1)))
   \<and> (call_hooks spre kw w = (Inr (), w1) \<and> call_hook st impls kw w1 = (Inl ex, w2) \<longrightarrow>
        call_hooks (spre @ (st, impls) # spost) kw w = (Inl ex, w2))
   \<and> (preflight e = Inr (sha, h) \<and> establish_ownership e BUILD sha w = (Inr s, w1)
        \<and> action s = BUILD \<and> build_pipeline e h sha w1 = (Inl ex, w2) \<longrightarrow>
        build_handler e w = (Raised ex, w2)
        \<and> hooks_only w1 w2
        \<and> Complete \<notin> set (drop (length (calls w)) (calls w2))
        \<and> ScheduleForRelease \<notin> set (drop (length (calls w)) (calls w2))
        \<and> get (store w2) sha = Some s
        \<and> (state s = RUNNING \<or> (get (store w) sha = Some s \<and> pid s = os_getpid e)))
   \<and> (preflight e = Inr (sha, h) \<and> establish_ownership e RELEASE sha w = (Inr s, w1)
        \<and> action s = RELEASE \<and> release_pipeline e h sha w1 = (Inl (Raised ex), w2) \<longrightarrow>
        release_handler e w = (Raised ex, w2)
        \<and> hooks_only w1 w2
        \<and> Complete \<notin> set (drop (length (calls w)) (calls w2))
        \<and> ScheduleForRelease \<notin> set (drop (length (calls w)) (calls w2))
        \<and> get (store w2) sha = Some s
        \<and> (state s = RUNNING \<or> (get (store w) sha = Some s \<and> pid s = os_getpid e)))
   \<and> (configure_impls h = cpre @ cp # cpost
        \<and> call_firstresult configure 0 cpre (configure_kwargs e sha) w1 = (Inr None, wq)
        \<and> fst (cp (configure_kwargs e sha) (cache (store wq))) = Inl ex \<longrightarrow>
        build_pipeline e h sha w1 =
          (Inl ex, log_call (Hook configure (length cpre))
                     (with_cache (snd (cp (configure_kwargs e sha) (cache (store wq)))) wq))
        \<and> release_pipeline e h sha w1 =
          (Inl (Raised ex), log_call (Hook configure (length cpre))
                     (with_cache (snd (cp (configure_kwargs e sha) (cache (store wq)))) wq)))
   \<and> (call_firstresult configure 0 (configure_impls h) (configure_kwargs e sha) w1
          = (Inr returned, wc)
        \<and> BuildPlugin_configure returned = Inl ex \<longrightarrow>
        build_pipeline e h sha w1 = (Inl ex, wc)
        \<and> release_pipeline e h sha w1 = (Inl (Raised ex), wc))
   \<and> (call_configure (configure_impls h) (configure_kwargs e sha) w1 = (Inr config, wc)
        \<and> map_of config ''build_path'' = Some build_path
        \<and> [(pre_build, pre_build_impls h), (build, build_impls h),
            (post_build, post_build_impls h)] = spre @ (st, impls) # spost
        \<and> call_hooks spre (stage_kwargs e sha config build_path) wc = (Inr (), wp)
        \<and> BuildPlugin_default # impls = pre @ p # post
        \<and> call_impls st 0 pre (stage_kwargs e sha config build_path) wp = (Inr (), wq)
        \<and> fst (p (stage_kwargs e sha config build_path) (cache (store wq))) = Inl ex \<longrightarrow>
        build_pipeline e h sha w1 =
          (Inl ex, log_call (Hook st (length pre))
                     (with_cache (snd (p (stage_kwargs e sha config build_path)
                                         (cache (store wq)))) wq)))
   \<and> (call_configure (configure_impls h) (configure_kwargs e sha) w1 = (Inr config, wc)
        \<and> map_of config ''build_path'' = Some (Path path) \<and> path_exists e path
        \<and> [(pre_release, pre_release_impls h), (release, release_impls h),
            (post_release, post_release_impls h)] = spre @ (st, impls) # spost
        \<and> call_hooks spre (stage_kwargs e sha config (Path path)) wc = (Inr (), wp)
        \<and> BuildPlugin_default # impls = pre @ p # post
        \<and> call_impls st 0 pre (stage_kwargs e sha config (Path path)) wp = (Inr (), wq)
        \<and> fst (p (stage_kwargs e sha config (Path path)) (cache (store wq))) = Inl ex \<longrightarrow>
        release_pipeline e h sha w1 =
          (Inl (Raised ex), log_call (Hook st (length pre))
                     (with_cache (snd (p (stage_kwargs e sha config (Path path))
                                         (cache (store wq)))) wq)))"
proof -
  have providers:
    "call_impls st i pre kw w = (Inr (), w1) \<and> fst (p kw (cache (store w1))) = Inl ex \<longrightarrow>
      call_impls st i (pre @ p # post) kw w =
        (Inl ex, log_call (Hook st (i + length pre)) (with_cache (snd (p kw (cache (store w1)))) w1))"
    by (simp add: call_impls_abort)
  have stages:
    "call_hooks spre kw w = (Inr (), w1) \<and> call_hook st impls kw w1 = (Inl ex, w2) \<longrightarrow>
        call_hooks (spre @ (st, impls) # spost) kw w = (Inl ex, w2)"
    by (simp add: call_hooks_abort)
  have build_run:
    "preflight e = Inr (sha, h) \<and> establish_ownership e BUILD sha w = (Inr s, w1)
        \<and> action s = BUILD \<and> build_pipeline e h sha w1 = (Inl ex, w2) \<longrightarrow>
        build_handler e w = (Raised ex, w2)
        \<and> hooks_only w1 w2
        \<and> Complete \<notin> set (drop (length (calls w)) (calls w2))
        \<and> ScheduleForRelease \<notin> set (drop (length (calls w)) (calls w2))
        \<and> get (store w2) sha = Some s
        \<and> (state s = RUNNING \<or> (get (store w) sha = Some s \<and> pid s = os_getpid e))"
  proof
    assume a: "preflight e = Inr (sha, h) \<and> establish_ownership e BUILD sha w = (Inr s, w1)
        \<and> action s = BUILD \<and> build_pipeline e h sha w1 = (Inl ex, w2)"
    then have est: "establish_ownership e BUILD sha w = (Inr s, w1)" by simp
    have ho: "hooks_only w1 w2" using build_pipeline_hooks_only [of w1 e h sha] a by simp
    have run: "build_handler e w = (Raised ex, w2)" using a by (simp add: build_handler_def)
    show "build_handler e w = (Raised ex, w2)
        \<and> hooks_only w1 w2
        \<and> Complete \<notin> set (drop (length (calls w)) (calls w2))
        \<and> ScheduleForRelease \<notin> set (drop (length (calls w)) (calls w2))
        \<and> get (store w2) sha = Some s
        \<and> (state s = RUNNING \<or> (get (store w) sha = Some s \<and> pid s = os_getpid e))"
      using run ho failed_run_facts [OF est ho] by simp
  qed
  have release_run:
    "preflight e = Inr (sha, h) \<and> establish_ownership e RELEASE sha w = (Inr s, w1)
        \<and> action s = RELEASE \<and> release_pipeline e h sha w1 = (Inl (Raised ex), w2) \<longrightarrow>
        release_handler e w = (Raised ex, w2)
        \<and> hooks_only w1 w2
        \<and> Complete \<notin> set (drop (length (calls w)) (calls w2))
        \<and> ScheduleForRelease \<notin> set (drop (length (calls w)) (calls w2))
        \<and> get (store w2) sha = Some s
        \<and> (state s = RUNNING \<or> (get (store w) sha = Some s \<and> pid s = os_getpid e))"
  proof
    assume a: "preflight e = Inr (sha, h) \<and> establish_ownership e RELEASE sha w = (Inr s, w1)
        \<and> action s = RELEASE \<and> release_pipeline e h sha w1 = (Inl (Raised ex), w2)"
    then have est: "establish_ownership e RELEASE sha w = (Inr s, w1)" by simp
    have ho: "hooks_only w1 w2" using release_pipeline_hooks_only [of w1 e h sha] a by simp
    have run: "release_handler e w = (Raised ex, w2)" using a by (simp add: release_handler_def)
    show "release_handler e w = (Raised ex, w2)
        \<and> hooks_only w1 w2
        \<and> Complete \<notin> set (drop (length (calls w)) (calls w2))
        \<and> ScheduleForRelease \<notin> set (drop (length (calls w)) (calls w2))
        \<and> get (store w2) sha = Some s
        \<and> (state s = RUNNING \<or> (get (store w) sha = Some s \<and> pid s = os_getpid e))"
      using run ho failed_run_facts [OF est ho] by simp
  qed
  have configure_raises:
    "configure_impls h = cpre @ cp # cpost
        \<and> call_firstresult configure 0 cpre (configure_kwargs e sha) w1 = (Inr None, wq)
        \<and> fst (cp (configure_kwargs e sha) (cache (store wq))) = Inl ex \<longrightarrow>
        build_pipeline e h sha w1 =
          (Inl ex, log_call (Hook configure (length cpre))
                     (with_cache (snd (cp (configure_kwargs e sha) (cache (store wq)))) wq))
        \<and> release_pipeline e h sha w1 =
          (Inl (Raised ex), log_call (Hook configure (length cpre))
                     (with_cache (snd (cp (configure_kwargs e sha) (cache (store wq)))) wq))"
  proof
    assume a: "configure_impls h = cpre @ cp # cpost
        \<and> call_firstresult configure 0 cpre (configure_kwargs e sha) w1 = (Inr None, wq)
        \<and> fst (cp (configure_kwargs e sha) (cache (store wq))) = Inl ex"
    then have f: "call_firstresult configure 0 cpre (configure_kwargs e sha) w1 = (Inr None, wq)"
      and r: "fst (cp (configure_kwargs e sha) (cache (store wq))) = Inl ex" by simp_all
    have "call_configure (configure_impls h) (configure_kwargs e sha) w1 =
           (Inl ex, log_call (Hook configure (length cpre))
                      (with_cache (snd (cp (configure_kwargs e sha) (cache (store wq)))) wq))"
      using configure_provider_raises [where cp = cp and cpost = cpost, OF f r] a by simp
    then show "build_pipeline e h sha w1 =
          (Inl ex, log_call (Hook configure (length cpre))
                     (with_cache (snd (cp (configure_kwargs e sha) (cache (store wq)))) wq))
        \<and> release_pipeline e h sha w1 =
          (Inl (Raised ex), log_call (Hook configure (length cpre))
                     (with_cache (snd (cp (configure_kwargs e sha) (cache (store wq)))) wq))"
      by (simp add: configure_failure_ends_pipelines)
  qed
  have wrapper_raises:
    "call_firstresult configure 0 (configure_impls h) (configure_kwargs e sha) w1
          = (Inr returned, wc)
        \<and> BuildPlugin_configure returned = Inl ex \<longrightarrow>
        build_pipeline e h sha w1 = (Inl ex, wc)
        \<and> release_pipeline e h sha w1 = (Inl (Raised ex), wc)"
  proof
    assume a: "call_firstresult configure 0 (configure_impls h) (configure_kwargs e sha) w1
          = (Inr returned, wc)
        \<and> BuildPlugin_configure returned = Inl ex"
    then have "call_configure (configure_impls h) (configure_kwargs e sha) w1 = (Inl ex, wc)"
      by (simp add: configure_wrapper_raises)
    then show "build_pipeline e h sha w1 = (Inl ex, wc)
        \<and> release_pipeline e h sha w1 = (Inl (Raised ex), wc)"
      by (simp add: configure_failure_ends_pipelines)
  qed
  have build_stage_raises:
    "call_configure (configure_impls h) (configure_kwargs e sha) w1 = (Inr config, wc)
        \<and> map_of config ''build_path'' = Some build_path
        \<and> [(pre_build, pre_build_impls h), (build, build_impls h),
            (post_build, post_build_impls h)] = spre @ (st, impls) # spost
        \<and> call_hooks spre (stage_kwargs e sha config build_path) wc = (Inr (), wp)
        \<and> BuildPlugin_default # impls = pre @ p # post
        \<and> call_impls st 0 pre (stage_kwargs e sha config build_path) wp = (Inr (), wq)
        \<and> fst (p (stage_kwargs e sha config build_path) (cache (store wq))) = Inl ex \<longrightarrow>
        build_pipeline e h sha w1 =
          (Inl ex, log_call (Hook st (length pre))
                     (with_cache (snd (p (stage_kwargs e sha config build_path)
                                         (cache (store wq)))) wq))"
  proof
    let ?kw = "stage_kwargs e sha config build_path"
    assume a: "call_configure (configure_impls h) (configure_kwargs e sha) w1 = (Inr config, wc)
        \<and> map_of config ''build_path'' = Some build_path
        \<and> [(pre_build, pre_build_impls h), (build, build_impls h),
            (post_build, post_build_impls h)] = spre @ (st, impls) # spost
        \<and> call_hooks spre ?kw wc = (Inr (), wp)
        \<and> BuildPlugin_default # impls = pre @ p # post
        \<and> call_impls st 0 pre ?kw wp = (Inr (), wq)
        \<and> fst (p ?kw (cache (store wq))) = Inl ex"
    then have stages: "[(pre_build, pre_build_impls h), (build, build_impls h),
            (post_build, post_build_impls h)] = spre @ (st, impls) # spost"
      and sbefore: "call_hooks spre ?kw wc = (Inr (), wp)"
      and split: "BuildPlugin_default # impls = pre @ p # post"
      and before: "call_impls st 0 pre ?kw wp = (Inr (), wq)"
      and raises: "fst (p ?kw (cache (store wq))) = Inl ex"
      by simp_all
    have "call_hooks [(pre_build, pre_build_impls h), (build, build_impls h),
            (post_build, post_build_impls h)] ?kw wc =
          (Inl ex, log_call (Hook st (length pre)) (with_cache (snd (p ?kw (cache (store wq)))) wq))"
      by (rule stage_failure_ends_hooks [where p = p, OF stages sbefore split before raises])
    with a show "build_pipeline e h sha w1 =
          (Inl ex, log_call (Hook st (length pre)) (with_cache (snd (p ?kw (cache (store wq)))) wq))"
      by (simp add: build_pipeline_def del: call_hooks.simps)
  qed
  have release_stage_raises:
    "call_configure (configure_impls h) (configure_kwargs e sha) w1 = (Inr config, wc)
        \<and> map_of config ''build_path'' = Some (Path path) \<and> path_exists e path
        \<and> [(pre_release, pre_release_impls h), (release, release_impls h),
            (post_release, post_release_impls h)] = spre @ (st, impls) # spost
        \<and> call_hooks spre (stage_kwargs e sha config (Path path)) wc = (Inr (), wp)
        \<and> BuildPlugin_default # impls = pre @ p # post
        \<and> call_impls st 0 pre (stage_kwargs e sha config (Path path)) wp = (Inr (), wq)
        \<and> fst (p (stage_kwargs e sha config (Path path)) (cache (store wq))) = Inl ex \<longrightarrow>
        release_pipeline e h sha w1 =
          (Inl (Raised ex), log_call (Hook st (length pre))
                     (with_cache (snd (p (stage_kwargs e sha config (Path path))
                                         (cache (store wq)))) wq))"
  proof
    let ?kw = "stage_kwargs e sha config (Path path)"
    assume a: "call_configure (configure_impls h) (configure_kwargs e sha) w1 = (Inr config, wc)
        \<and> map_of config ''build_path'' = Some (Path path) \<and> path_exists e path
        \<and> [(pre_release, pre_release_impls h), (release, release_impls h),
            (post_release, post_release_impls h)] = spre @ (st, impls) # spost
        \<and> call_hooks spre ?kw wc = (Inr (), wp)
        \<and> BuildPlugin_default # impls = pre @ p # post
        \<and> call_impls st 0 pre ?kw wp = (Inr (), wq)
        \<and> fst (p ?kw (cache (store wq))) = Inl ex"
    then have stages: "[(pre_release, pre_release_impls h), (release, release_impls h),
            (post_release, post_release_impls h)] = spre @ (st, impls) # spost"
      and sbefore: "call_hooks spre ?kw wc = (Inr (), wp)"
      and split: "BuildPlugin_default # impls = pre @ p # post"
      and before: "call_impls st 0 pre ?kw wp = (Inr (), wq)"
      and raises: "fst (p ?kw (cache (store wq))) = Inl ex"
      by simp_all
    have "call_hooks [(pre_release, pre_release_impls h), (release, release_impls h),
            (post_release, post_release_impls h)] ?kw wc =
          (Inl ex, log_call (Hook st (length pre)) (with_cache (snd (p ?kw (cache (store wq)))) wq))"
      by (rule stage_failure_ends_hooks [where p = p, OF stages sbefore split before raises])
    with a show "release_pipeline e h sha w1 =
          (Inl (Raised ex), log_call (Hook st (length pre))
             (with_cache (snd (p ?kw (cache (store wq)))) wq))"
      by (simp add: release_pipeline_def del: call_hooks.simps)
  qed
  show ?thesis
    by (rule conjI [OF providers conjI [OF stages conjI [OF build_run conjI [OF release_run
          conjI [OF configure_raises conjI [OF wrapper_raises
          conjI [OF build_stage_raises release_stage_raises]]]]]]])
qed

theorem failed_pipeline_stops_the_run_witness:
  "call_impls build 0 [demo_ok, demo_ok, demo_fail, demo_ok]
       (configure_kwargs (demo_env 42 (only_alive [42])) ''abc123'') (demo_world []) =
     (Inl (HookError ''boom''),
      \<lparr>store = empty_db, calls = [Hook build 0, Hook build 1, Hook build 2]\<rparr>)
   \<and> call_hooks [(pre_build, [demo_ok]), (build, [demo_fail]), (post_build, [demo_ok])]
       (configure_kwargs (demo_env 42 (only_alive [42])) ''abc123'') (demo_world []) =
     (Inl (HookError ''boom''),
      \<lparr>store = empty_db,
       calls = [Hook pre_build 0, Hook pre_build 1, Hook build 0, Hook build 1]\<rparr>)
   \<and> build_handler (demo_env 42 (only_alive [42])) (demo_world []) =
     (Raised (HookError ''boom''),
      \<lparr>store = empty_db\<lparr>snapshot :=
         [(demo_row BUILD RUNNING 42)\<lparr>created_at := 20, created_by := ''alice'', efd := 20\<rparr>]\<rparr>,
       calls = [Get, Create, Hook configure 0, Hook pre_build 0, Hook pre_build 1,
                Hook build 0, Hook build 1]\<rparr>)
   \<and> release_handler (demo_env 42 (only_alive [42])) (demo_world [demo_row RELEASE SCHEDULED 7]) =
     (Raised (HookError ''boom''),
      \<lparr>store = empty_db\<lparr>snapshot :=
         [(demo_row RELEASE RUNNING 42)\<lparr>updated_at := Some 20, updated_by := Some ''alice''\<rparr>]\<rparr>,
       calls = [Get, Adopt, Hook configure 0, Hook pre_release 0, Hook pre_release 1,
                Hook release 0, Hook release 1]\<rparr>)
   \<and> build_handler
        ((demo_env 42 (only_alive [42]))\<lparr>load_module_from_path :=
           Inr (demo_hooks\<lparr>configure_impls :=
                  [demo_configure_none, demo_configure_fail, demo_configure]\<rparr>)\<rparr>)
        (demo_world []) =
     (Raised (HookError ''no config''),
      \<lparr>store = empty_db\<lparr>snapshot :=
         [(demo_row BUILD RUNNING 42)\<lparr>created_at := 20, created_by := ''alice'', efd := 20\<rparr>]\<rparr>,
       calls = [Get, Create, Hook configure 0, Hook configure 1]\<rparr>)
   \<and> build_handler
        ((demo_env 42 (only_alive [42]))\<lparr>load_module_from_path :=
           Inr (demo_hooks\<lparr>configure_impls := [demo_configure_bad]\<rparr>)\<rparr>)
        (demo_world []) =
     (Raised (ConfigError ''build_path is a required key''),
      \<lparr>store = empty_db\<lparr>snapshot :=
         [(demo_row BUILD RUNNING 42)\<lparr>created_at := 20, created_by := ''alice'', efd := 20\<rparr>]\<rparr>,
       calls = [Get, Create, Hook configure 0]\<rparr>)"
proof -
  let ?e = "demo_env 42 (only_alive [42])"
  let ?sha = "''abc123''"
  let ?ckw = "configure_kwargs ?e ?sha"
  let ?ex = "HookError ''boom''"
  let ?cfg = "[(''build_path'', Path ''/builds/abc123'')]"
  let ?kw = "stage_kwargs ?e ?sha ?cfg (Path ''/builds/abc123'')"
  let ?base = "[BuildPlugin_default]"
  let ?none = "[] :: provider list"
  txt \<open>A provider raises inside one stage.\<close>
  let ?wa = "\<lparr>store = empty_db, calls = [Hook build 0, Hook build 1]\<rparr>"
  let ?two = "[demo_ok, demo_ok]"
  let ?one = "[demo_ok]"
  have a: "call_impls build 0 ?two ?ckw (demo_world []) = (Inr (), ?wa)
           \<and> fst (demo_fail ?ckw (cache (store ?wa))) = Inl ?ex"
    by (simp add: demo_defs)
  have A: "call_impls build 0 (?two @ demo_fail # ?one) ?ckw (demo_world []) =
        (Inl ?ex, log_call (Hook build (0 + length ?two))
                    (with_cache (snd (demo_fail ?ckw (cache (store ?wa)))) ?wa))"
    by (rule failed_pipeline_stops_the_run [where st = build and i = 0 and pre = ?two
          and kw = ?ckw and w = "demo_world []" and ?w1.0 = ?wa and p = demo_fail
          and ex = ?ex and post = ?one,
          THEN conjunct1, THEN mp, OF a])
  have A': "log_call (Hook build (0 + length ?two))
                    (with_cache (snd (demo_fail ?ckw (cache (store ?wa)))) ?wa)
            = \<lparr>store = empty_db, calls = [Hook build 0, Hook build 1, Hook build 2]\<rparr>"
    by (simp add: demo_defs)
  txt \<open>A stage raises among the stages of a handler.\<close>
  let ?wb = "\<lparr>store = empty_db, calls = [Hook pre_build 0, Hook pre_build 1]\<rparr>"
  let ?wb2 = "\<lparr>store = empty_db,
               calls = [Hook pre_build 0, Hook pre_build 1, Hook build 0, Hook build 1]\<rparr>"
  let ?sb = "[(pre_build, [demo_ok])]"
  let ?sa = "[(post_build, [demo_ok])]"
  let ?fl = "[demo_fail]"
  have b: "call_hooks ?sb ?ckw (demo_world []) = (Inr (), ?wb)
           \<and> call_hook build ?fl ?ckw ?wb = (Inl ?ex, ?wb2)"
    by (simp add: demo_defs)
  have B: "call_hooks (?sb @ (build, ?fl) # ?sa) ?ckw (demo_world []) = (Inl ?ex, ?wb2)"
    by (rule failed_pipeline_stops_the_run [where spre = ?sb and kw = ?ckw
          and w = "demo_world []" and ?w1.0 = ?wb and st = build and impls = ?fl
          and ex = ?ex and ?w2.0 = ?wb2 and spost = ?sa,
          THEN conjunct2, THEN conjunct1, THEN mp, OF b])
  txt \<open>A build whose \<open>build\<close> hook raises: from the provider to the pipeline, to the handler.\<close>
  let ?row = "(demo_row BUILD RUNNING 42)\<lparr>created_at := 20, created_by := ''alice'', efd := 20\<rparr>"
  let ?st = "empty_db\<lparr>snapshot := [?row]\<rparr>"
  let ?wc1 = "\<lparr>store = ?st, calls = [Get, Create]\<rparr>"
  let ?wcc = "\<lparr>store = ?st, calls = [Get, Create, Hook configure 0]\<rparr>"
  let ?wcp = "\<lparr>store = ?st, calls = [Get, Create, Hook configure 0, Hook pre_build 0,
                                     Hook pre_build 1]\<rparr>"
  let ?wcq = "\<lparr>store = ?st, calls = [Get, Create, Hook configure 0, Hook pre_build 0,
                                     Hook pre_build 1, Hook build 0]\<rparr>"
  let ?wc2 = "\<lparr>store = ?st, calls = [Get, Create, Hook configure 0, Hook pre_build 0,
                                     Hook pre_build 1, Hook build 0, Hook build 1]\<rparr>"
  have c7: "call_configure (configure_impls demo_hooks) ?ckw ?wc1 = (Inr ?cfg, ?wcc)
        \<and> map_of ?cfg ''build_path'' = Some (Path ''/builds/abc123'')
        \<and> [(pre_build, pre_build_impls demo_hooks), (build, build_impls demo_hooks),
            (post_build, post_build_impls demo_hooks)] = ?sb @ (build, ?fl) # ?sa
        \<and> call_hooks ?sb ?kw ?wcc = (Inr (), ?wcp)
        \<and> BuildPlugin_default # ?fl = ?base @ demo_fail # ?none
        \<and> call_impls build 0 ?base ?kw ?wcp = (Inr (), ?wcq)
        \<and> fst (demo_fail ?kw (cache (store ?wcq))) = Inl ?ex"
    by (simp add: demo_defs)
  have C7: "build_pipeline ?e demo_hooks ?sha ?wc1 =
          (Inl ?ex, log_call (Hook build (length ?base))
                     (with_cache (snd (demo_fail ?kw (cache (store ?wcq)))) ?wcq))"
    by (rule failed_pipeline_stops_the_run [where h = demo_hooks and e = ?e and sha = ?sha
          and ?w1.0 = ?wc1 and config = ?cfg and wc = ?wcc
          and build_path = "Path ''/builds/abc123''" and spre = ?sb
          and st = build and impls = ?fl and spost = ?sa
          and wp = ?wcp and pre = ?base and p = demo_fail and post = ?none
          and wq = ?wcq and ex = ?ex,
          THEN conjunct2, THEN conjunct2, THEN conjunct2, THEN conjunct2, THEN conjunct2,
          THEN conjunct2, THEN conjunct1, THEN mp, OF c7])
  have C7': "log_call (Hook build (length ?base))
                     (with_cache (snd (demo_fail ?kw (cache (store ?wcq)))) ?wcq) = ?wc2"
    by (simp add: demo_defs)
  have c3: "preflight ?e = Inr (?sha, demo_hooks)
           \<and> establish_ownership ?e BUILD ?sha (demo_world []) = (Inr ?row, ?wc1)
           \<and> action ?row = BUILD"
    by (simp add: demo_defs)
  have c3f: "preflight ?e = Inr (?sha, demo_hooks)
           \<and> establish_ownership ?e BUILD ?sha (demo_world []) = (Inr ?row, ?wc1)
           \<and> action ?row = BUILD
           \<and> build_pipeline ?e demo_hooks ?sha ?wc1 = (Inl ?ex, ?wc2)"
    using c3 C7 [unfolded C7'] by simp
  have C: "build_handler ?e (demo_world []) = (Raised ?ex, ?wc2)"
    by (rule failed_pipeline_stops_the_run [where e = ?e and sha = ?sha and h = demo_hooks
          and w = "demo_world []" and s = ?row and ?w1.0 = ?wc1 and ex = ?ex and ?w2.0 = ?wc2,
          THEN conjunct2, THEN conjunct2, THEN conjunct1, THEN mp, OF c3f, THEN conjunct1])
  txt \<open>A release whose \<open>release\<close> hook raises.\<close>
  let ?row' = "(demo_row RELEASE RUNNING 42)\<lparr>updated_at := Some 20, updated_by := Some ''alice''\<rparr>"
  let ?st' = "empty_db\<lparr>snapshot := [?row']\<rparr>"
  let ?wsched = "demo_world [demo_row RELEASE SCHEDULED 7]"
  let ?wd1 = "\<lparr>store = ?st', calls = [Get, Adopt]\<rparr>"
  let ?wdc = "\<lparr>store = ?st', calls = [Get, Adopt, Hook configure 0]\<rparr>"
  let ?wdp = "\<lparr>store = ?st', calls = [Get, Adopt, Hook configure 0, Hook pre_release 0,
                                      Hook pre_release 1]\<rparr>"
  let ?wdq = "\<lparr>store = ?st', calls = [Get, Adopt, Hook configure 0, Hook pre_release 0,
                                      Hook pre_release 1, Hook release 0]\<rparr>"
  let ?wd2 = "\<lparr>store = ?st', calls = [Get, Adopt, Hook configure 0, Hook pre_release 0,
                                      Hook pre_release 1, Hook release 0, Hook release 1]\<rparr>"
  let ?rb = "[(pre_release, [demo_ok])]"
  let ?ra = "[(post_release, [demo_ok])]"
  have d8: "call_configure (configure_impls demo_hooks) ?ckw ?wd1 = (Inr ?cfg, ?wdc)
        \<and> map_of ?cfg ''build_path'' = Some (Path ''/builds/abc123'')
        \<and> path_exists ?e ''/builds/abc123''
        \<and> [(pre_release, pre_release_impls demo_hooks), (release, release_impls demo_hooks),
            (post_release, post_release_impls demo_hooks)] = ?rb @ (release, ?fl) # ?ra
        \<and> call_hooks ?rb ?kw ?wdc = (Inr (), ?wdp)
        \<and> BuildPlugin_default # ?fl = ?base @ demo_fail # ?none
        \<and> call_impls release 0 ?base ?kw ?wdp = (Inr (), ?wdq)
        \<and> fst (demo_fail ?kw (cache (store ?wdq))) = Inl ?ex"
    by (simp add: demo_defs)
  have D8: "release_pipeline ?e demo_hooks ?sha ?wd1 =
          (Inl (Raised ?ex), log_call (Hook release (length ?base))
                     (with_cache (snd (demo_fail ?kw (cache (store ?wdq)))) ?wdq))"
    by (rule failed_pipeline_stops_the_run [where h = demo_hooks and e = ?e and sha = ?sha
          and ?w1.0 = ?wd1 and config = ?cfg and wc = ?wdc
          and path = "''/builds/abc123''" and spre = ?rb
          and st = release and impls = ?fl and spost = ?ra
          and wp = ?wdp and pre = ?base and p = demo_fail and post = ?none
          and wq = ?wdq and ex = ?ex,
          THEN conjunct2, THEN conjunct2, THEN conjunct2, THEN conjunct2, THEN conjunct2,
          THEN conjunct2, THEN conjunct2, THEN mp, OF d8])
  have D8': "log_call (Hook release (length ?base))
                     (with_cache (snd (demo_fail ?kw (cache (store ?wdq)))) ?wdq) = ?wd2"
    by (simp add: demo_defs)
  have d4: "preflight ?e = Inr (?sha, demo_hooks)
           \<and> establish_ownership ?e RELEASE ?sha ?wsched = (Inr ?row', ?wd1)
           \<and> action ?row' = RELEASE"
    by (simp add: demo_defs)
  have d4f: "preflight ?e = Inr (?sha, demo_hooks)
           \<and> establish_ownership ?e RELEASE ?sha ?wsched = (Inr ?row', ?wd1)
           \<and> action ?row' = RELEASE
           \<and> release_pipeline ?e demo_hooks ?sha ?wd1 = (Inl (Raised ?ex), ?wd2)"
    using d4 D8 [unfolded D8'] by simp
  have D: "release_handler ?e ?wsched = (Raised ?ex, ?wd2)"
    by (rule failed_pipeline_stops_the_run [where e = ?e and sha = ?sha and h = demo_hooks
          and w = ?wsched and s = ?row' and ?w1.0 = ?wd1 and ex = ?ex and ?w2.0 = ?wd2,
          THEN conjunct2, THEN conjunct2, THEN conjunct2, THEN conjunct1, THEN mp, OF d4f,
          THEN conjunct1])
  txt \<open>A build whose second \<open>configure\<close> implementation raises.\<close>
  let ?h5 = "demo_hooks\<lparr>configure_impls :=
               [demo_configure_none, demo_configure_fail, demo_configure]\<rparr>"
  let ?e5 = "?e\<lparr>load_module_from_path := Inr ?h5\<rparr>"
  let ?ckwa = "configure_kwargs ?e5 ?sha"
  let ?ex5 = "HookError ''no config''"
  let ?w5q = "\<lparr>store = ?st, calls = [Get, Create, Hook configure 0]\<rparr>"
  let ?w52 = "\<lparr>store = ?st, calls = [Get, Create, Hook configure 0, Hook configure 1]\<rparr>"
  let ?cn = "[demo_configure_none]"
  let ?cc = "[demo_configure]"
  have e5: "configure_impls ?h5 = ?cn @ demo_configure_fail # ?cc
        \<and> call_firstresult configure 0 ?cn ?ckwa ?wc1 = (Inr None, ?w5q)
        \<and> fst (demo_configure_fail ?ckwa (cache (store ?w5q))) = Inl ?ex5"
    by (simp add: demo_defs demo_configure_defs)
  have E5: "build_pipeline ?e5 ?h5 ?sha ?wc1 =
          (Inl ?ex5, log_call (Hook configure (length ?cn))
                     (with_cache (snd (demo_configure_fail ?ckwa (cache (store ?w5q)))) ?w5q))"
    by (rule failed_pipeline_stops_the_run [where h = ?h5 and e = ?e5 and sha = ?sha
          and ?w1.0 = ?wc1 and cpre = ?cn and cp = demo_configure_fail
          and cpost = ?cc and wq = ?w5q and ex = ?ex5,
          THEN conjunct2, THEN conjunct2, THEN conjunct2, THEN conjunct2, THEN conjunct1,
          THEN mp, OF e5, THEN conjunct1])
  have E5': "log_call (Hook configure (length ?cn))
               (with_cache (snd (demo_configure_fail ?ckwa (cache (store ?w5q)))) ?w5q) = ?w52"
    by (simp add: demo_defs demo_configure_defs)
  have e3: "preflight ?e5 = Inr (?sha, ?h5)
           \<and> establish_ownership ?e5 BUILD ?sha (demo_world []) = (Inr ?row, ?wc1)
           \<and> action ?row = BUILD"
    by (simp add: demo_defs)
  have e3f: "preflight ?e5 = Inr (?sha, ?h5)
           \<and> establish_ownership ?e5 BUILD ?sha (demo_world []) = (Inr ?row, ?wc1)
           \<and> action ?row = BUILD
           \<and> build_pipeline ?e5 ?h5 ?sha ?wc1 = (Inl ?ex5, ?w52)"
    using e3 E5 [unfolded E5'] by simp
  have E: "build_handler ?e5 (demo_world []) = (Raised ?ex5, ?w52)"
    by (rule failed_pipeline_stops_the_run [where e = ?e5 and sha = ?sha and h = ?h5
          and w = "demo_world []" and s = ?row and ?w1.0 = ?wc1 and ex = ?ex5 and ?w2.0 = ?w52,
          THEN conjunct2, THEN conjunct2, THEN conjunct1, THEN mp, OF e3f, THEN conjunct1])
  txt \<open>A build whose \<open>configure\<close> result is rejected by the wrapper.\<close>
  let ?h6 = "demo_hooks\<lparr>configure_impls := [demo_configure_bad]\<rparr>"
  let ?e6 = "?e\<lparr>load_module_from_path := Inr ?h6\<rparr>"
  let ?ckwb = "configure_kwargs ?e6 ?sha"
  let ?ex6 = "ConfigError ''build_path is a required key''"
  let ?bad = "Some [(''venv_path'', Path ''/builds/abc123/.venv'')]"
  have f6: "call_firstresult configure 0 (configure_impls ?h6) ?ckwb ?wc1 = (Inr ?bad, ?wcc)
        \<and> BuildPlugin_configure ?bad = Inl ?ex6"
    by (simp add: demo_defs demo_configure_defs)
  have F6: "build_pipeline ?e6 ?h6 ?sha ?wc1 = (Inl ?ex6, ?wcc)"
    by (rule failed_pipeline_stops_the_run [where h = ?h6 and e = ?e6 and sha = ?sha
          and ?w1.0 = ?wc1 and returned = ?bad and wc = ?wcc and ex = ?ex6,
          THEN conjunct2, THEN conjunct2, THEN conjunct2, THEN conjunct2, THEN conjunct2,
          THEN conjunct1, THEN mp, OF f6, THEN conjunct1])
  have f3: "preflight ?e6 = Inr (?sha, ?h6)
           \<and> establish_ownership ?e6 BUILD ?sha (demo_world []) = (Inr ?row, ?wc1)
           \<and> action ?row = BUILD"
    by (simp add: demo_defs)
  have f3f: "preflight ?e6 = Inr (?sha, ?h6)
           \<and> establish_ownership ?e6 BUILD ?sha (demo_world []) = (Inr ?row, ?wc1)
           \<and> action ?row = BUILD
           \<and> build_pipeline ?e6 ?h6 ?sha ?wc1 = (Inl ?ex6, ?wcc)"
    using f3 F6 by simp
  have F: "build_handler ?e6 (demo_world []) = (Raised ?ex6, ?wcc)"
    by (rule failed_pipeline_stops_the_run [where e = ?e6 and sha = ?sha and h = ?h6
          and w = "demo_world []" and s = ?row and ?w1.0 = ?wc1 and ex = ?ex6 and ?w2.0 = ?wcc,
          THEN conjunct2, THEN conjunct2, THEN conjunct1, THEN mp, OF f3f, THEN conjunct1])
  show ?thesis using A B C D E F unfolding A' by simp
qed

text \<open>
  Claim C4 as stated says that the row is left in state \<open>RUNNING\<close>. A build run whose pid
  equals the pid recorded in a \<open>COMPLETE\<close> build snapshot (the pid of an earlier run, used
  again) goes on without adopting, its \<open>build\<close> hook raises, and the row is left
  \<open>COMPLETE\<close>.
\<close>

theorem failed_build_leaves_complete_row:
  "build_handler (demo_env 42 (only_alive [42])) (demo_world [demo_row BUILD COMPLETE 42]) =
     (Raised (HookError ''boom''),
      \<lparr>store = empty_db\<lparr>snapshot := [demo_row BUILD COMPLETE 42]\<rparr>,
       calls = [Get, Hook configure 0, Hook pre_build 0, Hook pre_build 1,
                Hook build 0, Hook build 1]\<rparr>)
   \<and> map_option state
        (get (store (snd (build_handler (demo_env 42 (only_alive [42]))
                            (demo_world [demo_row BUILD COMPLETE 42])))) ''abc123'')
       = Some COMPLETE"
  by (simp add: demo_defs)

subsection \<open>Quiet exits\<close>

text \<open>
  Claim C7. Once ownership of the snapshot is established (the checks before the store
  passed and \<open>establish_ownership\<close> ended in a snapshot), a snapshot whose action is not
  the action of the handler makes the handler leave with \<open>sys.exit(0)\<close> in the world
  ownership left: the run has invoked no hook, \<open>configure\<close> included.
\<close>

theorem action_mismatch_exits_quietly:
  "(preflight e = Inr (sha, h) \<and> establish_ownership e BUILD sha w = (Inr s, w1)
      \<and> action s \<noteq> BUILD \<longrightarrow>
      build_handler e w = (SysExit 0, w1)
      \<and> filter is_hook (drop (length (calls w)) (calls w1)) = [])
   \<and> (preflight e = Inr (sha, h) \<and> establish_ownership e RELEASE sha w = (Inr s, w1)
      \<and> action s \<noteq> RELEASE \<longrightarrow>
      release_handler e w = (SysExit 0, w1)
      \<and> filter is_hook (drop (length (calls w)) (calls w1)) = [])"
proof -
  have nohook: "filter is_hook (drop (length (calls w)) (calls w1)) = []"
    if "establish_ownership e a sha w = (Inr s, w1)" for a
  proof -
    from establish_events [OF that] obtain evs where
      e1: "calls w1 = calls w @ evs" and s1: "set evs \<subseteq> {Get, Create, Adopt}" by blast
    have "\<forall>ev \<in> set evs. \<not> is_hook ev" using s1 by auto
    then show ?thesis using e1 by (simp add: filter_empty_conv)
  qed
  show ?thesis using nohook by (auto simp: build_handler_def release_handler_def)
qed

theorem action_mismatch_exits_quietly_witness:
  "establish_ownership (demo_env 42 (only_alive [42])) BUILD ''abc123''
       (demo_world [demo_row RELEASE SCHEDULED 42]) =
     (Inr (demo_row RELEASE SCHEDULED 42),
      \<lparr>store = empty_db\<lparr>snapshot := [demo_row RELEASE SCHEDULED 42]\<rparr>, calls = [Get]\<rparr>)
   \<and> build_handler (demo_env 42 (only_alive [42])) (demo_world [demo_row RELEASE SCHEDULED 42]) =
     (SysExit 0, \<lparr>store = empty_db\<lparr>snapshot := [demo_row RELEASE SCHEDULED 42]\<rparr>, calls = [Get]\<rparr>)
   \<and> establish_ownership (demo_env 42 (only_alive [42])) RELEASE ''abc123''
       (demo_world [demo_row BUILD RUNNING 42]) =
     (Inr (demo_row BUILD RUNNING 42),
      \<lparr>store = empty_db\<lparr>snapshot := [demo_row BUILD RUNNING 42]\<rparr>, calls = [Get]\<rparr>)
   \<and> release_handler (demo_env 42 (only_alive [42])) (demo_world [demo_row BUILD RUNNING 42]) =
     (SysExit 0, \<lparr>store = empty_db\<lparr>snapshot := [demo_row BUILD RUNNING 42]\<rparr>, calls = [Get]\<rparr>)"
proof -
  let ?e = "demo_env 42 (only_alive [42])"
  let ?w1 = "\<lparr>store = empty_db\<lparr>snapshot := [demo_row RELEASE SCHEDULED 42]\<rparr>, calls = [Get]\<rparr>"
  let ?w2 = "\<lparr>store = empty_db\<lparr>snapshot := [demo_row BUILD RUNNING 42]\<rparr>, calls = [Get]\<rparr>"
  have p: "preflight ?e = Inr (''abc123'', demo_hooks)" by (simp add: demo_defs)
  have b: "establish_ownership ?e BUILD ''abc123'' (demo_world [demo_row RELEASE SCHEDULED 42])
             = (Inr (demo_row RELEASE SCHEDULED 42), ?w1)
           \<and> action (demo_row RELEASE SCHEDULED 42) \<noteq> BUILD"
    by (simp add: demo_defs)
  have r: "establish_ownership ?e RELEASE ''abc123'' (demo_world [demo_row BUILD RUNNING 42])
             = (Inr (demo_row BUILD RUNNING 42), ?w2)
           \<and> action (demo_row BUILD RUNNING 42) \<noteq> RELEASE"
    by (simp add: demo_defs)
  show ?thesis
    using action_mismatch_exits_quietly [where e = ?e and sha = "''abc123''" and h = demo_hooks
        and w = "demo_world [demo_row RELEASE SCHEDULED 42]"
        and s = "demo_row RELEASE SCHEDULED 42" and ?w1.0 = ?w1]
      action_mismatch_exits_quietly [where e = ?e and sha = "''abc123''" and h = demo_hooks
        and w = "demo_world [demo_row BUILD RUNNING 42]"
        and s = "demo_row BUILD RUNNING 42" and ?w1.0 = ?w2]
      p b r
    by blast
qed

text \<open>
  Claim C8. When the checks before the store pass and the snapshot of the \<open>ref_sha\<close>
  records a pid that is not the caller's and that the probe finds alive, both handlers
  leave with \<open>sys.exit(0)\<close> after the lookup: the store is unchanged and no hook has been
  invoked.
\<close>

theorem live_peer_blocks_second_run:
  assumes pre: "preflight e = Inr (sha, h)"
    and row: "get (store w) sha = Some s"
    and other: "pid s \<noteq> os_getpid e"
    and alive: "is_pid_alive (os_kill e) (pid s) = Inr True"
  shows "build_handler e w = (SysExit 0, log_call Get w)
         \<and> release_handler e w = (SysExit 0, log_call Get w)
         \<and> store (log_call Get w) = store w
         \<and> calls (log_call Get w) = calls w @ [Get]"
proof -
  have "establish_ownership e a sha w = (Inl (SysExit 0), log_call Get w)" for a
    unfolding establish_found [OF row] using other alive by auto
  then show ?thesis using pre
    by (simp add: build_handler_def release_handler_def log_call_def)
qed

theorem live_peer_blocks_second_run_witness:
  "build_handler (demo_env 42 (only_alive [42, 7])) (demo_world [demo_row BUILD RUNNING 7]) =
     (SysExit 0, \<lparr>store = empty_db\<lparr>snapshot := [demo_row BUILD RUNNING 7]\<rparr>, calls = [Get]\<rparr>)
   \<and> release_handler (demo_env 42 (only_alive [42, 7])) (demo_world [demo_row BUILD RUNNING 7]) =
     (SysExit 0, \<lparr>store = empty_db\<lparr>snapshot := [demo_row BUILD RUNNING 7]\<rparr>, calls = [Get]\<rparr>)"
proof -
  let ?e = "demo_env 42 (only_alive [42, 7])"
  let ?w = "demo_world [demo_row BUILD RUNNING 7]"
  have p: "preflight ?e = Inr (''abc123'', demo_hooks)" by (simp add: demo_defs)
  have g: "get (store ?w) ''abc123'' = Some (demo_row BUILD RUNNING 7)" by (simp add: demo_defs)
  have o: "pid (demo_row BUILD RUNNING 7) \<noteq> os_getpid ?e" by (simp add: demo_defs)
  have a: "is_pid_alive (os_kill ?e) (pid (demo_row BUILD RUNNING 7)) = Inr True"
    by (simp add: demo_defs)
  show ?thesis
    using live_peer_blocks_second_run [OF p g o a] by (simp add: demo_defs)
qed

text \<open>
  Claim C10. When \<open>release_handler\<close> runs for a \<open>ref_sha\<close> that has no snapshot (the checks
  before the store pass, and the process can signal itself), it creates the snapshot
  with \<open>action = BUILD\<close>, \<open>state = RUNNING\<close> and its own pid, and then, the action not being
  \<open>RELEASE\<close>, leaves with \<open>sys.exit(0)\<close>: lookup and create are all the run did, no hook
  was invoked, and the \<open>RUNNING\<close> row stays behind.
\<close>

theorem release_without_snapshot_creates_build_row:
  assumes pre: "preflight e = Inr (sha, h)"
    and none: "get (store w) sha = None"
    and self: "os_kill e (os_getpid e) = KillOk"
  shows "release_handler e w =
           (SysExit 0,
            w\<lparr>store := (store w)\<lparr>snapshot := snapshot (store w) @
                 [\<lparr>ref = args_ref e, ref_sha = sha, action = BUILD, state = RUNNING,
                   created_at = datetime_now e, created_by = args_user e, updated_at = None,
                   updated_by = None, pid = os_getpid e, efd = datetime_now e, etd = None\<rparr>]\<rparr>,
              calls := calls w @ [Get, Create]\<rparr>)"
proof -
  have "\<exists>b. is_pid_alive (os_kill e) (os_getpid e) = Inr b"
    using self by (auto simp: is_pid_alive_def)
  then obtain b where b: "is_pid_alive (os_kill e) (os_getpid e) = Inr b" by blast
  have est: "establish_ownership e RELEASE sha w =
     (Inr \<lparr>ref = args_ref e, ref_sha = sha, action = BUILD, state = RUNNING,
               created_at = datetime_now e, created_by = args_user e, updated_at = None,
               updated_by = None, pid = os_getpid e, efd = datetime_now e, etd = None\<rparr>,
      log_call Create ((log_call Get w)\<lparr>store :=
        (store w)\<lparr>snapshot := snapshot (store w) @
           [\<lparr>ref = args_ref e, ref_sha = sha, action = BUILD, state = RUNNING,
               created_at = datetime_now e, created_by = args_user e, updated_at = None,
               updated_by = None, pid = os_getpid e, efd = datetime_now e, etd = None\<rparr>]\<rparr>\<rparr>))"
    unfolding establish_fresh [OF none] using b by simp
  show ?thesis
    using pre est by (simp add: release_handler_def log_call_def)
qed

theorem release_without_snapshot_creates_build_row_witness:
  "release_handler (demo_env 42 (only_alive [42])) (demo_world []) =
     (SysExit 0,
      \<lparr>store = empty_db\<lparr>snapshot :=
         [\<lparr>ref = ''main'', ref_sha = ''abc123'', action = BUILD, state = RUNNING,
           created_at = 20, created_by = ''alice'', updated_at = None, updated_by = None,
           pid = 42, efd = 20, etd = None\<rparr>]\<rparr>,
       calls = [Get, Create]\<rparr>)"
proof -
  let ?e = "demo_env 42 (only_alive [42])"
  have p: "preflight ?e = Inr (''abc123'', demo_hooks)" by (simp add: demo_defs)
  have g: "get (store (demo_world [])) ''abc123'' = None" by (simp add: demo_defs)
  have k: "os_kill ?e (os_getpid ?e) = KillOk" by (simp add: demo_defs)
  show ?thesis
    using release_without_snapshot_creates_build_row [OF p g k] by (simp add: demo_defs)
qed

end
